(* ===== verification/Prelude.thy ===== *)
theory Prelude
  imports Main "HOL-Library.Word" "HOL-Library.Sublist"
begin

text \<open>
  Shared vocabulary of the development: the types that name the program's data
  (Rust's \<open>Result<T, String>\<close>, \<open>u64\<close>, \<open>std::sync::Mutex\<close>), the literal and
  substring matchers that the regular expressions of \<open>config.rs\<close> are built from,
  and the generic lemmas on them that the component theories use through the
  simpset and the collection \<open>matcher_simps\<close>.
\<close>

named_theorems matcher_simps "characterisations of the literal and digit matchers"

section \<open>Types\<close>

text \<open>
  Every fallible function of the source returns \<open>Result<T, String>\<close>: the error is
  a human-readable message. It is the sum \<open>string + 'a\<close>, \<open>Inl\<close> the \<open>Err\<close>.
\<close>

type_synonym 'a result = "string + 'a"

type_synonym u64 = "64 word"

text \<open>
  \<open>std::sync::Mutex<T>\<close>: the guarded value and the poison flag that a panic
  while the guard is held sets. \<open>lock()\<close> fails on a poisoned mutex with a
  \<open>PoisonError\<close>, whose \<open>Display\<close> text is \<open>poison_msg\<close>.
\<close>

record 'a mutex =
  mdata :: 'a
  poisoned :: bool

definition poison_msg :: string where
  "poison_msg = ''poisoned lock: another task failed inside''"

definition mutex_lock :: "'a mutex \<Rightarrow> 'a result" where
  "mutex_lock m = (if poisoned m then Inl poison_msg else Inr (mdata m))"

definition new_mutex :: "'a \<Rightarrow> 'a mutex" where
  "new_mutex x = \<lparr>mdata = x, poisoned = False\<rparr>"

lemma mutex_lock_new [simp]: "mutex_lock (new_mutex x) = Inr x"
  by (simp add: mutex_lock_def new_mutex_def)

lemma mutex_lock_Inr_iff [simp]:
  "mutex_lock m = Inr x \<longleftrightarrow> \<not> poisoned m \<and> mdata m = x"
  by (auto simp: mutex_lock_def)

lemma mutex_lock_Inl_iff [simp]:
  "mutex_lock m = Inl e \<longleftrightarrow> poisoned m \<and> e = poison_msg"
  by (auto simp: mutex_lock_def)

section \<open>Literal matching\<close>

text \<open>
  \<open>match_lit p s\<close> is the rest of \<open>s\<close> after the literal \<open>p\<close> when \<open>s\<close> starts
  with it: one literal piece of a regular expression, matched at the current
  position.
\<close>

fun match_lit :: "string \<Rightarrow> string \<Rightarrow> string option" where
  "match_lit [] s = Some s"
| "match_lit (c # cs) [] = None"
| "match_lit (c # cs) (d # ds) = (if c = d then match_lit cs ds else None)"

lemma match_lit_Some_iff [simp, matcher_simps]:
  "match_lit p s = Some r \<longleftrightarrow> s = p @ r"
  by (induction p s rule: match_lit.induct) auto

lemma match_lit_None_iff [matcher_simps]:
  "match_lit p s = None \<longleftrightarrow> \<not> prefix p s"
  by (induction p s rule: match_lit.induct) auto

lemma match_lit_append [simp]: "match_lit p (p @ r) = Some r"
  by simp

lemma match_lit_length: "match_lit p s = Some r \<Longrightarrow> length r + length p = length s"
  by simp

text \<open>
  \<open>occurs p s\<close> scans \<open>s\<close> left to right for the literal \<open>p\<close>: what
  \<open>Regex::captures(s).is_some()\<close> computes for a regular expression that is a
  plain literal. It is the executable form of \<open>sublist\<close>.
\<close>

fun occurs :: "string \<Rightarrow> string \<Rightarrow> bool" where
  "occurs p [] = (p = [])"
| "occurs p (c # cs) = (match_lit p (c # cs) \<noteq> None \<or> occurs p cs)"

lemma occurs_sublist [matcher_simps]: "occurs p s \<longleftrightarrow> sublist p s"
proof (induction s)
  case Nil
  then show ?case by simp
next
  case (Cons c cs)
  have "match_lit p (c # cs) \<noteq> None \<longleftrightarrow> prefix p (c # cs)"
    by (simp add: match_lit_None_iff)
  with Cons.IH show ?case by (simp add: sublist_Cons_right)
qed

lemma occurs_append_iff: "occurs p (a @ p @ b)"
  by (simp add: occurs_sublist)

section \<open>Decimal digits\<close>

text \<open>The character class \<open>[0-9]\<close>.\<close>

definition is_digit :: "char \<Rightarrow> bool" where
  "is_digit c \<longleftrightarrow> c \<in> set ''0123456789''"

definition digit_val :: "char \<Rightarrow> nat" where
  "digit_val c = of_char c - 48"

lemma digit_val_lt: "is_digit c \<Longrightarrow> digit_val c < 10"
  by (auto simp: is_digit_def digit_val_def)

text \<open>A nonempty string of decimal digits: what the group \<open>([0-9]+)\<close> captures.\<close>

definition digit_string :: "string \<Rightarrow> bool" where
  "digit_string d \<longleftrightarrow> d \<noteq> [] \<and> list_all is_digit d"

text \<open>The value of a decimal digit string, most significant digit first.\<close>

definition nat_of_digits :: "string \<Rightarrow> nat" where
  "nat_of_digits ds = foldl (\<lambda>n c. 10 * n + digit_val c) 0 ds"

lemma nat_of_digits_snoc [simp]:
  "nat_of_digits (ds @ [c]) = 10 * nat_of_digits ds + digit_val c"
  by (simp add: nat_of_digits_def)

lemma nat_of_digits_Nil [simp]: "nat_of_digits [] = 0"
  by (simp add: nat_of_digits_def)

lemma foldl_digits_acc:
  "foldl (\<lambda>n c. 10 * n + digit_val c) a ds =
     a * 10 ^ length ds + foldl (\<lambda>n c. 10 * n + digit_val c) 0 ds"
proof (induction ds arbitrary: a)
  case Nil
  then show ?case by simp
next
  case (Cons c ds)
  from Cons.IH [of "10 * a + digit_val c"] Cons.IH [of "digit_val c"] show ?case
    by (simp add: algebra_simps)
qed

lemma nat_of_digits_Cons [simp]:
  "nat_of_digits (c # ds) = digit_val c * 10 ^ length ds + nat_of_digits ds"
  using foldl_digits_acc [of "digit_val c" ds] by (simp add: nat_of_digits_def)

end
