(* ===== verification/Config.thy ===== *)
theory Config
  imports Prelude
begin

text \<open>
  The constants and macros of \<open>src/src-tauri/src/config.rs\<close>: the base URL and the
  robots.txt URL, the URL template of \<open>eta_url!\<close>, the cache lifetime, the literal
  pieces of the three regular expressions, and the error messages.
\<close>

definition BASE_URL :: string where
  "BASE_URL = ''www.ctabustracker.com/bustime/wireless/html''"

definition ROBOTS_TXT_URL :: string where
  "ROBOTS_TXT_URL = ''https://www.ctabustracker.com/bustime/wireless/robots.txt''"

text \<open>
  \<open>eta_url!(base, route, stop)\<close>: the stop identifier is written twice, into the
  \<open>stop\<close> and the \<open>id\<close> fields; direction and feed fields are left fixed.
\<close>

definition eta_url :: "string \<Rightarrow> string \<Rightarrow> string \<Rightarrow> string" where
  "eta_url base_url route stop =
     ''https://'' @ base_url @ ''/eta.jsp?route='' @ route @
     ''&direction=---&displaydirection=---&stop='' @ stop @
     ''&findstop=on&selectedRtpiFeeds=&id='' @ stop"

definition CACHE_TTL_MS :: u64 where
  "CACHE_TTL_MS = 1000"

text \<open>
  The regular expressions. Each is a literal opening \<open>label_open\<close>, then either a
  literal or a group \<open>([0-9]+)\<close> between two literals:
  \<^item> \<open>route_label_regex!\<close>: \<open><strong class="larger">#([0-9]+)&nbsp;</strong>\<close>;
  \<^item> \<open>due_label_regex!\<close>: \<open><strong class="larger">DUE</strong>\<close>;
  \<^item> \<open>min_label_regex!\<close>: \<open><strong class="larger">([0-9]+)&nbsp;MIN</strong>\<close>.
\<close>

definition label_open :: string where
  "label_open = ''<strong class=''@[CHR 0x22]@''larger''@[CHR 0x22]@''>''"

definition route_label_pre :: string where
  "route_label_pre = label_open @ ''#''"

definition route_label_suf :: string where
  "route_label_suf = ''&nbsp;</strong>''"

definition due_label :: string where
  "due_label = label_open @ ''DUE</strong>''"

definition min_label_pre :: string where
  "min_label_pre = label_open"

definition min_label_suf :: string where
  "min_label_suf = ''&nbsp;MIN</strong>''"

text \<open>The error-message macros.\<close>

definition err_route_not_found :: "string \<Rightarrow> string" where
  "err_route_not_found route = ''Route '' @ route @ '' not found in response.''"

definition err_cannot_parse_eta :: string where
  "err_cannot_parse_eta = ''Cannot parse ETA.''"

definition err_no_eta_found :: string where
  "err_no_eta_found = ''No ETA found.''"

lemmas config_defs = BASE_URL_def ROBOTS_TXT_URL_def eta_url_def CACHE_TTL_MS_def
  label_open_def route_label_pre_def route_label_suf_def due_label_def
  min_label_pre_def min_label_suf_def

end
