(* ===== verification/Patterns.thy ===== *)
theory Patterns
  imports Config
begin

text \<open>
  The three regular expressions of \<open>config.rs\<close> as executable matchers, and the
  scanning loops of \<open>fetch_eta_inner\<close> (\<open>lib.rs\<close>) that run them over the page:
  \<^item> \<open>digits_label_at pre suf s\<close> matches \<open>pre([0-9]+)suf\<close> at the start of \<open>s\<close>
    and returns the captured digits and the text after the match;
  \<^item> \<open>find_route\<close> is the \<open>for m in route_label_regex.captures_iter(&html)\<close> loop
    with its \<open>break\<close> at the first label whose number is the route: it returns
    \<open>&html[m_index..]\<close>, the text after that label;
  \<^item> \<open>find_min\<close> is \<open>min_label_regex!().captures(truncated_html)\<close>, the leftmost
    match, and returns its group.
  The lemmas show that the matchers accept exactly the strings of the regular
  expressions, that the scan terminates, and that \<open>find_route\<close> refines the
  specification ``the text after the first occurrence of the label of the route''.
  Strings are byte strings: the patterns are ASCII and no byte of a multi-byte UTF-8
  sequence is ASCII, so match positions agree with the \<open>regex\<close> crate's.
\<close>

section \<open>Matching \<open>pre([0-9]+)suf\<close> at a position\<close>

definition digits_label_at :: "string \<Rightarrow> string \<Rightarrow> string \<Rightarrow> (string \<times> string) option" where
  "digits_label_at pre suf s =
     (case match_lit pre s of
        None \<Rightarrow> None
      | Some r \<Rightarrow>
          (let d = takeWhile is_digit r; r' = dropWhile is_digit r in
           if d = [] then None
           else (case match_lit suf r' of None \<Rightarrow> None | Some rest \<Rightarrow> Some (d, rest))))"

definition route_label_at :: "string \<Rightarrow> (string \<times> string) option" where
  "route_label_at = digits_label_at route_label_pre route_label_suf"

definition min_label_at :: "string \<Rightarrow> (string \<times> string) option" where
  "min_label_at = digits_label_at min_label_pre min_label_suf"

text \<open>
  The match is unique at a position: \<open>[0-9]+\<close> is followed by a literal that
  starts with a non-digit, so the group is the maximal run of digits. Hence the
  matcher accepts exactly the strings \<open>pre @ d @ suf @ rest\<close> with \<open>d\<close> a digit
  string: it is the regular expression's language, not an approximation of it.
\<close>

lemma digits_label_at_Some_iff [matcher_simps]:
  assumes suf: "suf \<noteq> []" "\<not> is_digit (hd suf)"
  shows "digits_label_at pre suf s = Some (d, rest) \<longleftrightarrow>
           s = pre @ d @ suf @ rest \<and> digit_string d"
proof
  assume m: "digits_label_at pre suf s = Some (d, rest)"
  then obtain r where r: "s = pre @ r"
    by (auto simp: digits_label_at_def split: option.splits)
  with m have "d = takeWhile is_digit r" "d \<noteq> []"
    and "dropWhile is_digit r = suf @ rest"
    by (auto simp: digits_label_at_def Let_def split: option.splits if_splits)
  moreover have "list_all is_digit (takeWhile is_digit r)"
    by (auto simp: list_all_iff dest: set_takeWhileD)
  ultimately show "s = pre @ d @ suf @ rest \<and> digit_string d"
    using r by (metis append.assoc takeWhile_dropWhile_id digit_string_def)
next
  assume "s = pre @ d @ suf @ rest \<and> digit_string d"
  then have s: "s = pre @ d @ suf @ rest" and d: "d \<noteq> []" "\<forall>c\<in>set d. is_digit c"
    by (auto simp: digit_string_def list_all_iff)
  from suf obtain x xs where x: "suf = x # xs" "\<not> is_digit x"
    by (cases suf) auto
  have "takeWhile is_digit (d @ suf @ rest) = d"
    using d x by (simp add: takeWhile_append2)
  moreover have "dropWhile is_digit (d @ suf @ rest) = suf @ rest"
    using d x by (simp add: dropWhile_append2)
  ultimately show "digits_label_at pre suf s = Some (d, rest)"
    using s d by (simp add: digits_label_at_def Let_def)
qed

lemma digits_label_at_shorter:
  "digits_label_at pre suf s = Some (d, rest) \<Longrightarrow> length rest < length s"
proof -
  assume m: "digits_label_at pre suf s = Some (d, rest)"
  then obtain r where r: "s = pre @ r" and ne: "takeWhile is_digit r \<noteq> []"
    and rest: "dropWhile is_digit r = suf @ rest"
    by (auto simp: digits_label_at_def Let_def split: option.splits if_splits)
  have "length (dropWhile is_digit r) < length r"
    using ne by (cases r) (auto simp: le_imp_less_Suc length_dropWhile_le split: if_splits)
  with r rest show ?thesis by simp
qed

lemma route_label_suf_shape: "route_label_suf \<noteq> [] \<and> \<not> is_digit (hd route_label_suf)"
  by (simp add: route_label_suf_def is_digit_def)

lemma min_label_suf_shape: "min_label_suf \<noteq> [] \<and> \<not> is_digit (hd min_label_suf)"
  by (simp add: min_label_suf_def is_digit_def)

lemma route_label_at_Some_iff [matcher_simps]:
  "route_label_at s = Some (d, rest) \<longleftrightarrow>
     s = route_label_pre @ d @ route_label_suf @ rest \<and> digit_string d"
  using route_label_suf_shape by (simp add: route_label_at_def digits_label_at_Some_iff)

lemma min_label_at_Some_iff [matcher_simps]:
  "min_label_at s = Some (d, rest) \<longleftrightarrow>
     s = min_label_pre @ d @ min_label_suf @ rest \<and> digit_string d"
  using min_label_suf_shape by (simp add: min_label_at_def digits_label_at_Some_iff)

lemma route_label_at_shorter:
  "route_label_at s = Some (d, rest) \<Longrightarrow> length rest < length s"
  by (simp add: route_label_at_def digits_label_at_shorter)

section \<open>The scanning loops\<close>

text \<open>
  \<open>captures_iter\<close> tries each position from the left; after a match it resumes at
  the end of the match. The loop body compares the captured number with the route
  and breaks at the first equal one. The recursion is on a strictly shorter suffix
  in both calls, which is the termination argument of the loop.
\<close>

function find_route :: "string \<Rightarrow> string \<Rightarrow> string option" where
  "find_route route [] = None"
| "find_route route (c # cs) =
     (case route_label_at (c # cs) of
        Some (d, rest) \<Rightarrow> (if d = route then Some rest else find_route route rest)
      | None \<Rightarrow> find_route route cs)"
  by pat_completeness auto
termination
  by (relation "measure (\<lambda>(route, s). length s)") (auto dest: route_label_at_shorter)

text \<open>\<open>Regex::captures\<close>: the leftmost match, and its group.\<close>

fun find_min :: "string \<Rightarrow> string option" where
  "find_min [] = None"
| "find_min (c # cs) =
     (case min_label_at (c # cs) of Some (d, rest) \<Rightarrow> Some d | None \<Rightarrow> find_min cs)"

section \<open>Specification of the route scan\<close>

text \<open>
  The contract of the scan in the specification: the text after the \<^emph>\<open>first\<close>
  occurrence of the label of the requested route. \<open>after_first p s\<close> is the text
  after the leftmost occurrence of \<open>p\<close> in \<open>s\<close>; \<open>route_label route\<close> is the
  label the page prints for a route.
\<close>

fun after_first :: "string \<Rightarrow> string \<Rightarrow> string option" where
  "after_first p [] = (if p = [] then Some [] else None)"
| "after_first p (c # cs) =
     (case match_lit p (c # cs) of Some r \<Rightarrow> Some r | None \<Rightarrow> after_first p cs)"

definition route_label :: "string \<Rightarrow> string" where
  "route_label route = route_label_pre @ route @ route_label_suf"

text \<open>\<open>after_first\<close> returns the text after the leftmost occurrence and nothing else.\<close>

lemma after_first_Some_iff:
  "after_first p s = Some r \<longleftrightarrow>
     (\<exists>a. s = a @ p @ r \<and> (\<forall>k<length a. \<not> prefix p (drop k s)))"
proof (induction s arbitrary: r)
  case Nil
  then show ?case by auto
next
  case (Cons c cs)
  show ?case
  proof (cases "prefix p (c # cs)")
    case True
    then obtain r0 where r0: "c # cs = p @ r0" by (auto simp: prefix_def)
    have "(\<exists>a. c # cs = a @ p @ r \<and> (\<forall>k<length a. \<not> prefix p (drop k (c # cs)))) \<longleftrightarrow> r = r0"
    proof
      assume "\<exists>a. c # cs = a @ p @ r \<and> (\<forall>k<length a. \<not> prefix p (drop k (c # cs)))"
      then obtain a where a: "c # cs = a @ p @ r" "\<forall>k<length a. \<not> prefix p (drop k (c # cs))"
        by blast
      with True have "a = []" by (cases a) auto
      with a r0 show "r = r0" by simp
    qed (use r0 in auto)
    moreover from r0 have "match_lit p (c # cs) = Some r0" by simp
    then have "after_first p (c # cs) = Some r0" by (simp del: match_lit_Some_iff)
    ultimately show ?thesis by auto
  next
    case False
    then have nm: "match_lit p (c # cs) = None" by (simp add: match_lit_None_iff)
    have "(\<exists>a. c # cs = a @ p @ r \<and> (\<forall>k<length a. \<not> prefix p (drop k (c # cs)))) \<longleftrightarrow>
          (\<exists>a. cs = a @ p @ r \<and> (\<forall>k<length a. \<not> prefix p (drop k cs)))"
    proof
      assume "\<exists>a. c # cs = a @ p @ r \<and> (\<forall>k<length a. \<not> prefix p (drop k (c # cs)))"
      then obtain a where a: "c # cs = a @ p @ r" "\<forall>k<length a. \<not> prefix p (drop k (c # cs))"
        by blast
      with False obtain a' where "a = c # a'" by (cases a) auto
      with a show "\<exists>a. cs = a @ p @ r \<and> (\<forall>k<length a. \<not> prefix p (drop k cs))"
        by (metis Suc_less_eq drop_Suc_Cons length_Cons list.inject append_Cons)
    next
      assume "\<exists>a. cs = a @ p @ r \<and> (\<forall>k<length a. \<not> prefix p (drop k cs))"
      then obtain a where a: "cs = a @ p @ r" "\<forall>k<length a. \<not> prefix p (drop k cs)"
        by blast
      have "\<forall>k<length (c # a). \<not> prefix p (drop k (c # cs))"
      proof (intro allI impI)
        fix k assume "k < length (c # a)"
        then show "\<not> prefix p (drop k (c # cs))"
          using a(2) False by (cases k) auto
      qed
      with a show "\<exists>a. c # cs = a @ p @ r \<and> (\<forall>k<length a. \<not> prefix p (drop k (c # cs)))"
        by (metis append_Cons)
    qed
    with nm Cons.IH show ?thesis by simp
  qed
qed


text \<open>
  Skipping over a label of another route: the label of the requested route starts
  with \<open><s\<close>, and inside a matched label the only \<open><\<close> after the first is followed
  by \<open>/\<close>, so no occurrence of the requested label starts inside a skipped one.
\<close>

lemma after_first_skip:
  "p \<noteq> [] \<Longrightarrow> hd p \<notin> set xs \<Longrightarrow> after_first p (xs @ r) = after_first p r"
proof (induction xs)
  case Nil
  then show ?case by simp
next
  case (Cons x xs)
  then obtain q qs where "p = q # qs" "q \<noteq> x" by (cases p) auto
  with Cons show ?case by simp
qed

lemma route_label_shape:
  "route_label route = CHR ''<'' # CHR ''s'' # drop 2 route_label_pre @ route @ route_label_suf"
  by (simp add: route_label_def route_label_pre_def label_open_def)

lemma after_first_route_label_suf:
  "after_first (CHR ''<'' # CHR ''s'' # p) (route_label_suf @ r) = after_first (CHR ''<'' # CHR ''s'' # p) r"
  by (simp add: route_label_suf_def)

lemma lt_notin_route_label_pre: "CHR ''<'' \<notin> set (tl route_label_pre)"
  by (simp add: route_label_pre_def label_open_def)

lemma lt_notin_digits: "digit_string d \<Longrightarrow> CHR ''<'' \<notin> set d"
proof
  assume "digit_string d" "CHR ''<'' \<in> set d"
  then have "is_digit CHR ''<''" by (auto simp: digit_string_def list_all_iff)
  then show False by (simp add: is_digit_def)
qed

text \<open>
  The scan refines its specification: for a route number, \<open>find_route\<close> returns
  exactly the text after the first occurrence of the route's label, although it
  compares captured numbers label by label rather than searching for the label.
\<close>

lemma find_route_after_first:
  "digit_string route \<Longrightarrow> find_route route s = after_first (route_label route) s"
proof (induction route s rule: find_route.induct)
  case (1 route)
  then show ?case by (simp add: route_label_def route_label_suf_def)
next
  case (2 route c cs)
  show ?case
  proof (cases "route_label_at (c # cs)")
    case None
    have "match_lit (route_label route) (c # cs) = None"
    proof (rule ccontr)
      assume "match_lit (route_label route) (c # cs) \<noteq> None"
      then obtain r where "c # cs = route_label_pre @ route @ route_label_suf @ r"
        by (auto simp: route_label_def)
      with "2.prems" have "route_label_at (c # cs) = Some (route, r)"
        by (simp add: route_label_at_Some_iff)
      with None show False by simp
    qed
    with None "2.IH"(1)[OF None "2.prems"] show ?thesis by simp
  next
    case (Some m)
    obtain d rest where m: "m = (d, rest)" by (cases m)
    with Some have eq: "c # cs = route_label_pre @ d @ route_label_suf @ rest" and d: "digit_string d"
      by (simp_all add: route_label_at_Some_iff)
    show ?thesis
    proof (cases "d = route")
      case True
      with eq have "match_lit (route_label route) (c # cs) = Some rest"
        by (simp add: route_label_def)
      then have "after_first (route_label route) (c # cs) = Some rest"
        by (simp del: match_lit_Some_iff)
      with Some m True show ?thesis by simp
    next
      case False
      have nm: "match_lit (route_label route) (c # cs) = None"
      proof (rule ccontr)
        assume "match_lit (route_label route) (c # cs) \<noteq> None"
        then obtain r where "c # cs = route_label_pre @ route @ route_label_suf @ r"
          by (auto simp: route_label_def)
        with "2.prems" have "route_label_at (c # cs) = Some (route, r)"
          by (simp add: route_label_at_Some_iff)
        with Some m False show False by simp
      qed
      have "after_first (route_label route) (c # cs) =
            after_first (route_label route) (tl route_label_pre @ d @ route_label_suf @ rest)"
        using nm eq by (simp add: route_label_pre_def label_open_def)
      also have "\<dots> = after_first (route_label route) (route_label_suf @ rest)"
        using lt_notin_route_label_pre lt_notin_digits[OF d]
        by (subst append.assoc[symmetric], subst after_first_skip) (simp_all add: route_label_shape)
      also have "\<dots> = after_first (route_label route) rest"
        by (simp only: route_label_shape after_first_route_label_suf)
      finally show ?thesis
        using Some m False "2.IH"(2)[OF Some m[symmetric] False "2.prems"] by simp
    qed
  qed
qed


text \<open>
  The group is \<open>([0-9]+)\<close>: a route identifier that is not a string of digits
  (such as \<open>X9\<close> or \<open>J14\<close>) is never found, whatever the page holds.
\<close>

lemma find_route_non_digit:
  "\<not> digit_string route \<Longrightarrow> find_route route s = None"
proof (induction route s rule: find_route.induct)
  case (1 route)
  then show ?case by simp
next
  case (2 route c cs)
  show ?case
  proof (cases "route_label_at (c # cs)")
    case None
    with "2.IH"(1)[OF None "2.prems"] show ?thesis by simp
  next
    case (Some m)
    obtain d rest where m: "m = (d, rest)" by (cases m)
    with Some have "digit_string d" by (simp add: route_label_at_Some_iff)
    with "2.prems" have "d \<noteq> route" by auto
    with Some m "2.IH"(2)[OF Some m[symmetric] _ "2.prems"] show ?thesis by simp
  qed
qed

end
