(* ===== verification/ParseInt.thy ===== *)
theory ParseInt
  imports Prelude
begin

text \<open>
  \<open>str::parse::<i32>\<close>, which \<open>fetch_eta_inner\<close> applies to the digits captured
  by the minutes label (\<open>lib.rs\<close>, the \<open>ms[1].parse::<i32>()\<close> call). The model
  follows the standard library's \<open>from_str_radix\<close> for a signed type and radix 10:
  an optional sign, then one digit at a time, \<open>checked_mul\<close> by ten and
  \<open>checked_add\<close> (\<open>checked_sub\<close> for a negative number) of the digit, any
  overflow or non-digit an error. The error kinds are not distinguished, since the
  caller maps every one of them to the same message. The lemmas show that it
  computes the decimal value exactly when that value fits in an \<open>i32\<close>
  (equivalence with the reference \<open>nat_of_digits\<close>).
\<close>

definition i32_min :: int where
  "i32_min = - (2 ^ 31)"

definition i32_max :: int where
  "i32_max = 2 ^ 31 - 1"

definition checked_i32 :: "int \<Rightarrow> int option" where
  "checked_i32 x = (if i32_min \<le> x \<and> x \<le> i32_max then Some x else None)"

fun parse_digits_pos :: "int \<Rightarrow> string \<Rightarrow> int option" where
  "parse_digits_pos acc [] = Some acc"
| "parse_digits_pos acc (c # cs) =
     (if is_digit c then
        (case checked_i32 (acc * 10) of
           None \<Rightarrow> None
         | Some m \<Rightarrow>
             (case checked_i32 (m + int (digit_val c)) of
                None \<Rightarrow> None
              | Some a \<Rightarrow> parse_digits_pos a cs))
      else None)"

fun parse_digits_neg :: "int \<Rightarrow> string \<Rightarrow> int option" where
  "parse_digits_neg acc [] = Some acc"
| "parse_digits_neg acc (c # cs) =
     (if is_digit c then
        (case checked_i32 (acc * 10) of
           None \<Rightarrow> None
         | Some m \<Rightarrow>
             (case checked_i32 (m - int (digit_val c)) of
                None \<Rightarrow> None
              | Some a \<Rightarrow> parse_digits_neg a cs))
      else None)"

definition parse_i32 :: "string \<Rightarrow> int option" where
  "parse_i32 s =
     (case s of
        [] \<Rightarrow> None
      | c # cs \<Rightarrow>
          (if (c = CHR ''+'' \<or> c = CHR ''-'') \<and> cs = [] then None
           else if c = CHR ''+'' then parse_digits_pos 0 cs
           else if c = CHR ''-'' then parse_digits_neg 0 cs
           else parse_digits_pos 0 s))"

lemma checked_i32_Some_iff [simp]:
  "checked_i32 x = Some y \<longleftrightarrow> y = x \<and> i32_min \<le> x \<and> x \<le> i32_max"
  by (auto simp: checked_i32_def)

lemma checked_i32_None_iff [simp]:
  "checked_i32 x = None \<longleftrightarrow> \<not> (i32_min \<le> x \<and> x \<le> i32_max)"
  by (simp add: checked_i32_def)

text \<open>
  The accumulator only grows over a string of digits, so one overflow anywhere is
  an overflow of the final value: the loop fails exactly when the value does not
  fit.
\<close>

lemma parse_digits_pos_value:
  assumes "list_all is_digit ds" "0 \<le> acc" "acc \<le> i32_max"
  shows "parse_digits_pos acc ds =
           (let v = acc * 10 ^ length ds + int (nat_of_digits ds)
            in if v \<le> i32_max then Some v else None)"
  using assms
proof (induction ds arbitrary: acc)
  case Nil
  then show ?case by simp
next
  case (Cons c cs)
  let ?d = "int (digit_val c)"
  let ?v = "acc * 10 ^ length (c # cs) + int (nat_of_digits (c # cs))"
  have c: "is_digit c" and cs: "list_all is_digit cs" using Cons.prems by simp_all
  have min: "i32_min \<le> 0" by (simp add: i32_min_def)
  have grow: "(acc * 10 + ?d) * 10 ^ length cs \<le> ?v"
    by (simp add: algebra_simps)
  have step: "acc * 10 + ?d \<le> (acc * 10 + ?d) * 10 ^ length cs"
    using Cons.prems(2) by (simp add: mult_le_cancel_left1 one_le_power)
  show ?case
  proof (cases "acc * 10 + ?d \<le> i32_max")
    case True
    have "0 \<le> acc * 10 + ?d" using Cons.prems(2) by simp
    with True min Cons.prems(2) have m1: "checked_i32 (acc * 10) = Some (acc * 10)"
      and m2: "checked_i32 (acc * 10 + ?d) = Some (acc * 10 + ?d)"
      by simp_all
    have "parse_digits_pos acc (c # cs) = parse_digits_pos (acc * 10 + ?d) cs"
      using c by (simp del: checked_i32_Some_iff checked_i32_None_iff add: m1 m2)
    also have "\<dots> = (let v = (acc * 10 + ?d) * 10 ^ length cs + int (nat_of_digits cs)
                      in if v \<le> i32_max then Some v else None)"
      using Cons.IH [OF cs _ True] \<open>0 \<le> acc * 10 + ?d\<close> by simp
    also have "(acc * 10 + ?d) * 10 ^ length cs + int (nat_of_digits cs) = ?v"
      by (simp add: algebra_simps)
    finally show ?thesis by (simp add: Let_def)
  next
    case False
    with grow step have "\<not> ?v \<le> i32_max" by linarith
    have "parse_digits_pos acc (c # cs) = None"
      using False c by (auto split: option.split)
    with \<open>\<not> ?v \<le> i32_max\<close> show ?thesis
      by (simp add: Let_def)
  qed
qed

lemma parse_i32_digits:
  "digit_string ds \<Longrightarrow>
     parse_i32 ds = (if int (nat_of_digits ds) \<le> i32_max then Some (int (nat_of_digits ds)) else None)"
proof -
  assume ds: "digit_string ds"
  then obtain c cs where c: "ds = c # cs" "is_digit c"
    by (cases ds) (auto simp: digit_string_def)
  then have "c \<noteq> CHR ''+'' \<and> c \<noteq> CHR ''-''" by (auto simp: is_digit_def)
  then have "parse_i32 ds = parse_digits_pos 0 ds" by (simp add: parse_i32_def c)
  also have "\<dots> = (if int (nat_of_digits ds) \<le> i32_max then Some (int (nat_of_digits ds)) else None)"
    using ds by (simp add: parse_digits_pos_value digit_string_def i32_max_def Let_def)
  finally show ?thesis .
qed

text \<open>
  C25: On the strings the minutes group captures (nonempty, decimal digits),
  \<open>parse::<i32>\<close> is the decimal value when it fits in an \<open>i32\<close>, and an error
  otherwise: the checked digit loop is equivalent to the reference value
  \<open>nat_of_digits\<close> with one range test.
\<close>

theorem parse_i32_digit_string:
  "digit_string ds \<Longrightarrow>
     parse_i32 ds = (if int (nat_of_digits ds) \<le> i32_max then Some (int (nat_of_digits ds)) else None)"
  by (rule parse_i32_digits)

theorem parse_i32_digit_string_witness:
  "digit_string ''2147483648'' \<and> parse_i32 ''2147483648'' = None \<and>
   digit_string ''2147483647'' \<and> parse_i32 ''2147483647'' = Some 2147483647"
proof -
  have d1: "digit_string ''2147483648''" and d2: "digit_string ''2147483647''"
    by (simp_all add: digit_string_def is_digit_def)
  show ?thesis
    using parse_i32_digit_string [OF d1] parse_i32_digit_string [OF d2] d1 d2
    by (simp add: digit_val_def i32_max_def)
qed

end
