(* ===== verification/Extractor.thy ===== *)
theory Extractor
  imports Patterns ParseInt
begin

text \<open>
  The markup extractor: the second half of \<open>fetch_eta_inner\<close> (\<open>lib.rs\<close>), from
  the scan for the route label to the returned minutes. \<open>eta_after_label\<close> is
  the part that works on \<open>truncated_html = &html[m_index..]\<close>: the \<open>DUE\<close> test,
  then the minutes label and its \<open>parse::<i32>\<close>, then the \<open>No ETA found\<close>
  error. \<open>extract_eta\<close> is the whole extraction from the page body. The
  theorems give the result on every branch in terms of the text after the first
  label of the route, and bound the value.
\<close>

definition eta_after_label :: "string \<Rightarrow> int result" where
  "eta_after_label truncated_html =
     (if occurs due_label truncated_html then Inr 1
      else (case find_min truncated_html of
              Some ms \<Rightarrow>
                (case parse_i32 ms of
                   None \<Rightarrow> Inl err_cannot_parse_eta
                 | Some min_match \<Rightarrow> Inr min_match)
            | None \<Rightarrow> Inl err_no_eta_found))"

definition extract_eta :: "string \<Rightarrow> string \<Rightarrow> int result" where
  "extract_eta route html =
     (case find_route route html of
        None \<Rightarrow> Inl (err_route_not_found route)
      | Some truncated_html \<Rightarrow> eta_after_label truncated_html)"

section \<open>The leftmost minutes label\<close>

lemma find_min_Some_iff:
  "find_min s = Some d \<longleftrightarrow>
     (\<exists>a b. s = a @ min_label_pre @ d @ min_label_suf @ b \<and> digit_string d \<and>
            (\<forall>k<length a. min_label_at (drop k s) = None))"
proof (induction s)
  case Nil
  then show ?case by (simp add: min_label_pre_def label_open_def)
next
  case (Cons c cs)
  show ?case
  proof (cases "min_label_at (c # cs)")
    case None
    have "(\<exists>a b. c # cs = a @ min_label_pre @ d @ min_label_suf @ b \<and> digit_string d \<and>
              (\<forall>k<length a. min_label_at (drop k (c # cs)) = None)) \<longleftrightarrow>
          (\<exists>a b. cs = a @ min_label_pre @ d @ min_label_suf @ b \<and> digit_string d \<and>
              (\<forall>k<length a. min_label_at (drop k cs) = None))"
    proof
      assume "\<exists>a b. c # cs = a @ min_label_pre @ d @ min_label_suf @ b \<and> digit_string d \<and>
              (\<forall>k<length a. min_label_at (drop k (c # cs)) = None)"
      then obtain a b where ab: "c # cs = a @ min_label_pre @ d @ min_label_suf @ b"
        "digit_string d" "\<forall>k<length a. min_label_at (drop k (c # cs)) = None"
        by blast
      have "a \<noteq> []"
      proof
        assume "a = []"
        with ab(1,2) have "min_label_at (c # cs) = Some (d, b)"
          by (simp add: min_label_at_Some_iff)
        with None show False by simp
      qed
      with ab(1) obtain a' where "a = c # a'" by (cases a) auto
      with ab show "\<exists>a b. cs = a @ min_label_pre @ d @ min_label_suf @ b \<and> digit_string d \<and>
              (\<forall>k<length a. min_label_at (drop k cs) = None)"
        by (metis Suc_less_eq drop_Suc_Cons length_Cons list.inject append_Cons)
    next
      assume "\<exists>a b. cs = a @ min_label_pre @ d @ min_label_suf @ b \<and> digit_string d \<and>
              (\<forall>k<length a. min_label_at (drop k cs) = None)"
      then obtain a b where ab: "cs = a @ min_label_pre @ d @ min_label_suf @ b"
        "digit_string d" "\<forall>k<length a. min_label_at (drop k cs) = None"
        by blast
      have "\<forall>k<length (c # a). min_label_at (drop k (c # cs)) = None"
      proof (intro allI impI)
        fix k assume "k < length (c # a)"
        then show "min_label_at (drop k (c # cs)) = None"
          using ab(3) None by (cases k) auto
      qed
      with ab show "\<exists>a b. c # cs = a @ min_label_pre @ d @ min_label_suf @ b \<and> digit_string d \<and>
              (\<forall>k<length a. min_label_at (drop k (c # cs)) = None)"
        by (metis append_Cons)
    qed
    with None Cons.IH show ?thesis by simp
  next
    case (Some m)
    obtain d0 b0 where m: "m = (d0, b0)" by (cases m)
    with Some have eq: "c # cs = min_label_pre @ d0 @ min_label_suf @ b0" "digit_string d0"
      by (simp_all add: min_label_at_Some_iff)
    have "(\<exists>a b. c # cs = a @ min_label_pre @ d @ min_label_suf @ b \<and> digit_string d \<and>
              (\<forall>k<length a. min_label_at (drop k (c # cs)) = None)) \<longleftrightarrow> d = d0"
    proof
      assume "\<exists>a b. c # cs = a @ min_label_pre @ d @ min_label_suf @ b \<and> digit_string d \<and>
              (\<forall>k<length a. min_label_at (drop k (c # cs)) = None)"
      then obtain a b where ab: "c # cs = a @ min_label_pre @ d @ min_label_suf @ b"
        "digit_string d" "\<forall>k<length a. min_label_at (drop k (c # cs)) = None"
        by blast
      have "a = []"
      proof (rule ccontr)
        assume "a \<noteq> []"
        with ab(3) have "min_label_at (c # cs) = None" by (metis drop0 length_greater_0_conv)
        with Some show False by simp
      qed
      with ab(1,2) have "min_label_at (c # cs) = Some (d, b)"
        by (simp add: min_label_at_Some_iff)
      with Some m show "d = d0" by simp
    next
      assume "d = d0"
      with eq show "\<exists>a b. c # cs = a @ min_label_pre @ d @ min_label_suf @ b \<and> digit_string d \<and>
              (\<forall>k<length a. min_label_at (drop k (c # cs)) = None)"
        by (intro exI [of _ "[]"] exI [of _ b0]) auto
    qed
    with Some m show ?thesis by auto
  qed
qed

lemma find_min_None_iff:
  "find_min s = None \<longleftrightarrow>
     (\<forall>a d b. s = a @ min_label_pre @ d @ min_label_suf @ b \<longrightarrow> \<not> digit_string d)"
proof (induction s)
  case Nil
  then show ?case by (simp add: min_label_pre_def label_open_def)
next
  case (Cons c cs)
  have here: "min_label_at (c # cs) = None \<longleftrightarrow>
      (\<forall>d b. c # cs = min_label_pre @ d @ min_label_suf @ b \<longrightarrow> \<not> digit_string d)"
    by (metis min_label_at_Some_iff not_None_eq surj_pair)
  have split: "(\<forall>a d b. c # cs = a @ min_label_pre @ d @ min_label_suf @ b \<longrightarrow> \<not> digit_string d) \<longleftrightarrow>
      (\<forall>d b. c # cs = min_label_pre @ d @ min_label_suf @ b \<longrightarrow> \<not> digit_string d) \<and>
      (\<forall>a d b. cs = a @ min_label_pre @ d @ min_label_suf @ b \<longrightarrow> \<not> digit_string d)"
  proof
    assume H: "\<forall>a d b. c # cs = a @ min_label_pre @ d @ min_label_suf @ b \<longrightarrow> \<not> digit_string d"
    show "(\<forall>d b. c # cs = min_label_pre @ d @ min_label_suf @ b \<longrightarrow> \<not> digit_string d) \<and>
      (\<forall>a d b. cs = a @ min_label_pre @ d @ min_label_suf @ b \<longrightarrow> \<not> digit_string d)"
    proof (intro conjI allI impI)
      fix d b assume "c # cs = min_label_pre @ d @ min_label_suf @ b"
      then show "\<not> digit_string d" using H [rule_format, of "[]"] by simp
    next
      fix a d b assume "cs = a @ min_label_pre @ d @ min_label_suf @ b"
      then show "\<not> digit_string d" using H [rule_format, of "c # a"] by simp
    qed
  next
    assume H: "(\<forall>d b. c # cs = min_label_pre @ d @ min_label_suf @ b \<longrightarrow> \<not> digit_string d) \<and>
      (\<forall>a d b. cs = a @ min_label_pre @ d @ min_label_suf @ b \<longrightarrow> \<not> digit_string d)"
    show "\<forall>a d b. c # cs = a @ min_label_pre @ d @ min_label_suf @ b \<longrightarrow> \<not> digit_string d"
    proof (intro allI impI)
      fix a d b assume e: "c # cs = a @ min_label_pre @ d @ min_label_suf @ b"
      show "\<not> digit_string d"
      proof (cases a)
        case Nil
        with e H show ?thesis by simp
      next
        case (Cons x a')
        with e have "cs = a' @ min_label_pre @ d @ min_label_suf @ b" by simp
        with H show ?thesis by blast
      qed
    qed
  qed
  show ?case
  proof (cases "min_label_at (c # cs)")
    case None
    with here split Cons.IH show ?thesis by simp
  next
    case (Some m)
    obtain d b where m: "m = (d, b)" by (cases m)
    with Some have e: "c # cs = [] @ min_label_pre @ d @ min_label_suf @ b" "digit_string d"
      by (simp_all add: min_label_at_Some_iff)
    then have "\<not> (\<forall>a d b. c # cs = a @ min_label_pre @ d @ min_label_suf @ b \<longrightarrow> \<not> digit_string d)"
      by blast
    moreover from Some m have "find_min (c # cs) = Some d" by simp
    ultimately show ?thesis by simp
  qed
qed

lemma after_first_None_iff: "after_first p s = None \<longleftrightarrow> \<not> sublist p s"
proof
  assume "after_first p s = None"
  then show "\<not> sublist p s"
    by (induction p s rule: after_first.induct)
       (auto simp: sublist_Cons_right prefix_def split: option.splits)
next
  assume "\<not> sublist p s"
  then show "after_first p s = None"
    by (cases "after_first p s") (auto simp: after_first_Some_iff)
qed

lemma extract_eta_after_first:
  "digit_string route \<Longrightarrow>
     extract_eta route html =
       (case after_first (route_label route) html of
          None \<Rightarrow> Inl (err_route_not_found route)
        | Some truncated_html \<Rightarrow> eta_after_label truncated_html)"
  by (simp add: extract_eta_def find_route_after_first)

lemma eta_after_label_min:
  assumes "\<not> sublist due_label t" "t = b @ min_label_pre @ d @ min_label_suf @ c"
    "digit_string d" "\<forall>k<length b. min_label_at (drop k t) = None"
  shows "eta_after_label t =
           (if int (nat_of_digits d) \<le> i32_max then Inr (int (nat_of_digits d))
            else Inl err_cannot_parse_eta)"
proof -
  from assms(2-4) have "find_min t = Some d" by (auto simp: find_min_Some_iff)
  with assms(1,3) show ?thesis
    by (simp add: eta_after_label_def occurs_sublist parse_i32_digits)
qed

section \<open>The extractor on every branch\<close>

text \<open>
  C4: When the text after the first label of the route contains the \<open>DUE\<close>
  marker, the extractor returns 1 minute.
\<close>

theorem extract_eta_due:
  "digit_string route \<Longrightarrow> after_first (route_label route) html = Some tail \<Longrightarrow>
     sublist due_label tail \<Longrightarrow> extract_eta route html = Inr 1"
  by (simp add: extract_eta_after_first eta_after_label_def occurs_sublist)

theorem extract_eta_due_witness:
  "digit_string ''7'' \<and>
   after_first (route_label ''7'') (''<p>'' @ route_label ''7'' @ due_label) = Some due_label \<and>
   sublist due_label due_label \<and>
   extract_eta ''7'' (''<p>'' @ route_label ''7'' @ due_label) = Inr 1"
proof -
  have r: "digit_string ''7''" by (simp add: digit_string_def is_digit_def)
  have a: "after_first (route_label ''7'') (''<p>'' @ route_label ''7'' @ due_label) = Some due_label"
    by (simp add: route_label_def config_defs)
  show ?thesis using extract_eta_due [OF r a] r a by simp
qed

text \<open>
  C3: When the text after the first label of the route has no \<open>DUE\<close> marker
  and its first minutes label reads \<open>d\<close>, the extractor returns the value of
  \<open>d\<close> if it fits in an \<open>i32\<close> and the \<open>Cannot parse ETA.\<close> error otherwise.
\<close>

theorem extract_eta_minutes:
  assumes "digit_string route" "after_first (route_label route) html = Some tail"
    "\<not> sublist due_label tail" "tail = b @ min_label_pre @ d @ min_label_suf @ c"
    "digit_string d" "\<forall>k<length b. min_label_at (drop k tail) = None"
  shows "extract_eta route html =
           (if int (nat_of_digits d) \<le> i32_max then Inr (int (nat_of_digits d))
            else Inl err_cannot_parse_eta)"
  using assms by (simp add: extract_eta_after_first eta_after_label_min)

definition min12_page :: string where
  "min12_page = due_label @ route_label ''7'' @ min_label_pre @ ''12'' @ min_label_suf"

lemma min12_page_after_first:
  "after_first (route_label ''7'') min12_page = Some (min_label_pre @ ''12'' @ min_label_suf)"
  by (simp add: min12_page_def route_label_def config_defs)

lemma min12_page_no_due: "\<not> sublist due_label (min_label_pre @ ''12'' @ min_label_suf)"
  by (simp add: occurs_sublist [symmetric] config_defs)

text \<open>
  The witness is the regression case of the specification: a \<open>DUE\<close> marker
  \<^emph>\<open>before\<close> the label of route 7 and \<open>12&nbsp;MIN\<close> after it give 12.
\<close>

theorem extract_eta_minutes_witness:
  "extract_eta ''7'' min12_page = Inr 12"
proof -
  have r: "digit_string ''7''" and d: "digit_string ''12''"
    by (simp_all add: digit_string_def is_digit_def)
  have "extract_eta ''7'' min12_page =
          (if int (nat_of_digits ''12'') \<le> i32_max then Inr (int (nat_of_digits ''12''))
           else Inl err_cannot_parse_eta)"
    by (rule extract_eta_minutes [OF r min12_page_after_first min12_page_no_due _ d,
          where b = "[]" and c = "[]"]) simp_all
  then show ?thesis by (simp add: digit_val_def i32_max_def)
qed

text \<open>
  C14: When the text after the first label of the route has neither a \<open>DUE\<close>
  marker nor any minutes label, the extractor fails with \<open>No ETA found.\<close>
\<close>

theorem extract_eta_no_eta:
  assumes "digit_string route" "after_first (route_label route) html = Some tail"
    "\<not> sublist due_label tail"
    "\<forall>b d c. tail = b @ min_label_pre @ d @ min_label_suf @ c \<longrightarrow> \<not> digit_string d"
  shows "extract_eta route html = Inl err_no_eta_found"
proof -
  from assms(4) have "find_min tail = None" by (simp add: find_min_None_iff)
  with assms(1-3) show ?thesis
    by (simp add: extract_eta_after_first eta_after_label_def occurs_sublist)
qed

theorem extract_eta_no_eta_witness:
  "extract_eta ''7'' (route_label ''7'' @ ''</td>'') = Inl err_no_eta_found"
proof -
  have r: "digit_string ''7''" by (simp add: digit_string_def is_digit_def)
  have a: "after_first (route_label ''7'') (route_label ''7'' @ ''</td>'') = Some ''</td>''"
    by (simp add: route_label_def config_defs)
  have n: "\<not> sublist due_label ''</td>''"
    by (simp add: occurs_sublist [symmetric] config_defs)
  have "find_min ''</td>'' = None" by (simp add: min_label_at_def digits_label_at_def config_defs)
  then have m: "\<forall>b d c. ''</td>'' = b @ min_label_pre @ d @ min_label_suf @ c \<longrightarrow> \<not> digit_string d"
    by (rule find_min_None_iff [THEN iffD1])
  show ?thesis by (rule extract_eta_no_eta [OF r a n m])
qed

text \<open>
  C15: The extractor fails with \<open>Route r not found in response.\<close> exactly when
  the route is not a string of digits or its label does not occur in the page.
\<close>

theorem extract_eta_route_not_found:
  "extract_eta route html = Inl (err_route_not_found route) \<longleftrightarrow>
     \<not> digit_string route \<or> \<not> sublist (route_label route) html"
proof (cases "digit_string route")
  case False
  then show ?thesis by (simp add: extract_eta_def find_route_non_digit)
next
  case True
  have other: "eta_after_label t \<noteq> Inl (err_route_not_found route)" for t
    by (auto simp: eta_after_label_def err_route_not_found_def err_cannot_parse_eta_def
                   err_no_eta_found_def split: option.splits)
  show ?thesis
  proof (cases "after_first (route_label route) html")
    case None
    then have "\<not> sublist (route_label route) html" by (simp add: after_first_None_iff)
    with True None show ?thesis by (simp add: extract_eta_after_first)
  next
    case (Some t)
    then have "sublist (route_label route) html"
      by (auto simp: after_first_Some_iff)
    with True Some other show ?thesis by (simp add: extract_eta_after_first)
  qed
qed

theorem extract_eta_route_not_found_witness:
  "extract_eta ''X9'' min12_page = Inl (err_route_not_found ''X9'')"
proof -
  have "\<not> digit_string ''X9''" by (simp add: digit_string_def is_digit_def)
  then show ?thesis by (simp add: extract_eta_route_not_found)
qed

text \<open>
  C26: Whatever the page, a value the extractor returns is a number of minutes
  between 0 and the largest \<open>i32\<close>.
\<close>

theorem extract_eta_range:
  "extract_eta route html = Inr n \<Longrightarrow> 0 \<le> n \<and> n \<le> i32_max"
proof -
  assume e: "extract_eta route html = Inr n"
  then obtain t where t: "eta_after_label t = Inr n"
    by (auto simp: extract_eta_def split: option.splits)
  show ?thesis
  proof (cases "occurs due_label t")
    case True
    with t show ?thesis by (simp add: eta_after_label_def i32_max_def)
  next
    case False
    with t obtain ms where ms: "find_min t = Some ms" "parse_i32 ms = Some n"
      by (auto simp: eta_after_label_def split: option.splits)
    from ms(1) have "digit_string ms" by (auto simp: find_min_Some_iff)
    with ms(2) show ?thesis
      by (simp add: parse_i32_digits split: if_splits)
  qed
qed

theorem extract_eta_range_witness:
  "extract_eta ''7'' min12_page = Inr 12 \<and> 0 \<le> (12::int) \<and> (12::int) \<le> i32_max"
proof -
  have e: "extract_eta ''7'' min12_page = Inr 12"
    by (simp add: min12_page_def route_label_def config_defs extract_eta_def eta_after_label_def
                  route_label_at_def min_label_at_def digits_label_at_def is_digit_def
                  parse_i32_def digit_val_def checked_i32_def i32_min_def i32_max_def)
  show ?thesis using extract_eta_range [OF e] e by simp
qed

text \<open>
  C5: Only the text after the first label of the route counts: the extractor
  gives the same result on the page as on that label followed by the rest of the
  page, so markers before the label, and later labels of the same route, are
  ignored.
\<close>

theorem extract_eta_first_label:
  "after_first (route_label route) html = Some tail \<Longrightarrow>
     extract_eta route html = extract_eta route (route_label route @ tail)"
proof (cases "digit_string route")
  case True
  assume a: "after_first (route_label route) html = Some tail"
  have "after_first (route_label route) (route_label route @ tail) = Some tail"
    by (auto simp: after_first_Some_iff intro: exI [of _ "[]"])
  with a True show ?thesis by (simp add: extract_eta_after_first)
next
  case False
  then show ?thesis by (simp add: extract_eta_def find_route_non_digit)
qed

theorem extract_eta_first_label_witness:
  "extract_eta ''7'' min12_page = extract_eta ''7'' (route_label ''7'' @ min_label_pre @ ''12'' @ min_label_suf)"
  by (rule extract_eta_first_label [OF min12_page_after_first])

end
