(* ===== verification/Cache.thy ===== *)
theory Cache
  imports Config
begin

text \<open>
  The ETA cache of \<open>lib.rs\<close>: \<open>CacheItem\<close> (an ETA and the \<open>u64\<close> millisecond
  timestamp at which it was made) and \<open>EtaCache\<close> (a \<open>HashMap<String, CacheItem>\<close>
  and the lifetime \<open>cache_ttl\<close>). \<open>SystemTime::now()\<close> is not a function of
  anything in the program, so each operation that reads the clock takes the time it
  reads as an argument. \<open>is_valid\<close> computes \<open>now - item.timestamp\<close> on \<open>u64\<close>:
  a debug build panics when that subtraction underflows (\<open>None\<close> here), a release
  build wraps around; the build is the datatype \<open>build\<close>. The lemmas give the
  validity window, the effect of a clock that goes backwards, the insert/lookup
  round trip, and the refinement of the cache by the map of its fresh entries. The
  clock reading's own failure, a clock before the Unix epoch, is the
  \<open>None\<close> of \<open>clock\<close>.
\<close>

record cache_item =
  eta :: int
  timestamp :: u64

definition cache_item_new :: "int \<Rightarrow> u64 \<Rightarrow> cache_item" where
  "cache_item_new e now = \<lparr>eta = e, timestamp = now\<rparr>"

record eta_cache =
  cache :: "string \<rightharpoonup> cache_item"
  cache_ttl :: u64

definition eta_cache_new :: eta_cache where
  "eta_cache_new = \<lparr>cache = Map.empty, cache_ttl = CACHE_TTL_MS\<rparr>"

definition eta_cache_get :: "eta_cache \<Rightarrow> string \<Rightarrow> cache_item option" where
  "eta_cache_get c key = cache c key"

definition eta_cache_set :: "eta_cache \<Rightarrow> string \<Rightarrow> int \<Rightarrow> u64 \<Rightarrow> eta_cache" where
  "eta_cache_set c key e now = c\<lparr>cache := (cache c)(key \<mapsto> cache_item_new e now)\<rparr>"

datatype build = Debug | Release

definition is_valid :: "build \<Rightarrow> eta_cache \<Rightarrow> cache_item \<Rightarrow> u64 \<Rightarrow> bool option" where
  "is_valid b c item now =
     (if b = Debug \<and> now < timestamp item then None
      else Some (now - timestamp item < cache_ttl c))"

section \<open>Reading the clock\<close>

text \<open>
  \<open>CacheItem::new\<close> and \<open>is_valid\<close> read the clock with
  \<open>SystemTime::now().duration_since(UNIX_EPOCH).unwrap().as_millis() as u64\<close>.
  A reading is an argument of type \<open>clock\<close>: \<open>None\<close> when the system clock is
  before the Unix epoch, where \<open>duration_since\<close> returns \<open>Err\<close> and
  \<open>unwrap\<close> panics in either build; otherwise the milliseconds as \<open>u64\<close>. The
  methods below are the complete ones, a panic being \<open>Inl\<close> with its message;
  \<open>cache_item_new\<close>, \<open>eta_cache_set\<close> and \<open>is_valid\<close> above are their
  bodies after a successful reading.
\<close>

type_synonym clock = "u64 option"

definition panic_before_epoch :: string where
  "panic_before_epoch = ''called Result::unwrap() on an Err value: SystemTimeError''"

definition panic_sub_overflow :: string where
  "panic_sub_overflow = ''attempt to subtract with overflow''"

definition read_clock :: "clock \<Rightarrow> u64 result" where
  "read_clock clk = (case clk of None \<Rightarrow> Inl panic_before_epoch | Some now \<Rightarrow> Inr now)"

definition cache_item_at :: "int \<Rightarrow> clock \<Rightarrow> cache_item result" where
  "cache_item_at e clk =
     (case read_clock clk of Inl m \<Rightarrow> Inl m | Inr now \<Rightarrow> Inr (cache_item_new e now))"

definition eta_cache_set_at :: "eta_cache \<Rightarrow> string \<Rightarrow> int \<Rightarrow> clock \<Rightarrow> eta_cache result" where
  "eta_cache_set_at c key e clk =
     (case cache_item_at e clk of
        Inl m \<Rightarrow> Inl m
      | Inr item \<Rightarrow> Inr (c\<lparr>cache := (cache c)(key \<mapsto> item)\<rparr>))"

definition is_valid_at :: "build \<Rightarrow> eta_cache \<Rightarrow> cache_item \<Rightarrow> clock \<Rightarrow> bool result" where
  "is_valid_at b c item clk =
     (case read_clock clk of
        Inl m \<Rightarrow> Inl m
      | Inr now \<Rightarrow> (case is_valid b c item now of None \<Rightarrow> Inl panic_sub_overflow | Some v \<Rightarrow> Inr v))"

section \<open>Abstract view: the fresh entries\<close>

text \<open>
  What the cache promises its client: at time \<open>now\<close>, the map from keys to the
  ETAs of the entries that are still valid. Stale entries are not removed, only
  hidden by this view.
\<close>

definition fresh_view :: "eta_cache \<Rightarrow> u64 \<Rightarrow> string \<rightharpoonup> int" where
  "fresh_view c now key =
     (case cache c key of
        None \<Rightarrow> None
      | Some item \<Rightarrow> if now - timestamp item < cache_ttl c then Some (eta item) else None)"

lemma eta_cache_get_set [simp]:
  "eta_cache_get (eta_cache_set c key e now) key' =
     (if key' = key then Some \<lparr>eta = e, timestamp = now\<rparr> else eta_cache_get c key')"
  by (simp add: eta_cache_get_def eta_cache_set_def cache_item_new_def)

lemma cache_set [simp]:
  "cache (eta_cache_set c key e now) = (cache c)(key \<mapsto> \<lparr>eta = e, timestamp = now\<rparr>)"
  by (simp add: eta_cache_set_def cache_item_new_def)

lemma cache_ttl_set [simp]: "cache_ttl (eta_cache_set c key e now) = cache_ttl c"
  by (simp add: eta_cache_set_def)

lemma eta_cache_new_ttl [simp]: "cache_ttl eta_cache_new = 1000"
  by (simp add: eta_cache_new_def CACHE_TTL_MS_def)

lemma is_valid_Release [simp]:
  "is_valid Release c item now = Some (now - timestamp item < cache_ttl c)"
  by (simp add: is_valid_def)

lemma eta_cache_set_at_None [simp]: "eta_cache_set_at c key e None = Inl panic_before_epoch"
  by (simp add: eta_cache_set_at_def cache_item_at_def read_clock_def)

lemma eta_cache_set_at_Some [simp]:
  "eta_cache_set_at c key e (Some now) = Inr (eta_cache_set c key e now)"
  by (simp add: eta_cache_set_at_def cache_item_at_def read_clock_def eta_cache_set_def)

lemma is_valid_at_None [simp]: "is_valid_at b c item None = Inl panic_before_epoch"
  by (simp add: is_valid_at_def read_clock_def)

lemma is_valid_at_Some [simp]:
  "is_valid_at b c item (Some now) =
     (case is_valid b c item now of None \<Rightarrow> Inl panic_sub_overflow | Some v \<Rightarrow> Inr v)"
  by (simp add: is_valid_at_def read_clock_def)

lemma word_sub_unat_no_wrap:
  "(t::u64) \<le> now \<Longrightarrow> unat (now - t) = unat now - unat t"
  by (simp add: unat_sub)

lemma is_valid_elapsed:
  "timestamp item \<le> now \<Longrightarrow>
     is_valid b c item now = Some (unat now - unat (timestamp item) < unat (cache_ttl c))"
  by (auto simp: is_valid_def word_less_nat_alt word_sub_unat_no_wrap not_less[symmetric])

text \<open>
  C23: With a clock that has not gone back since the entry was made, the \<open>u64\<close>
  subtraction in \<open>is_valid\<close> does not wrap, in either build: an entry is valid
  exactly when the true elapsed time is below the lifetime.
\<close>

theorem is_valid_window:
  "timestamp item \<le> now \<Longrightarrow>
     is_valid b c item now = Some (unat now - unat (timestamp item) < unat (cache_ttl c))"
  by (rule is_valid_elapsed)

theorem is_valid_window_witness:
  "timestamp \<lparr>eta = 5, timestamp = 100\<rparr> \<le> (1099::u64) \<and>
   is_valid Debug eta_cache_new \<lparr>eta = 5, timestamp = 100\<rparr> 1099 = Some True \<and>
   is_valid Release eta_cache_new \<lparr>eta = 5, timestamp = 100\<rparr> 1100 = Some False"
proof -
  have a: "timestamp \<lparr>eta = 5, timestamp = 100\<rparr> \<le> (1099::u64)" by simp
  have b: "timestamp \<lparr>eta = 5, timestamp = 100\<rparr> \<le> (1100::u64)" by simp
  show ?thesis
    using is_valid_window [OF a, of Debug eta_cache_new] is_valid_window [OF b, of Release eta_cache_new]
    by simp
qed

lemma unat_sub_wrap:
  "(now::u64) < t \<Longrightarrow> unat (now - t) = unat now + 2 ^ 64 - unat t"
  by (simp add: unat_sub_if' word_less_nat_alt)

text \<open>
  C24: When the clock reads earlier than the entry's timestamp, \<open>now - timestamp\<close>
  underflows: a debug build panics, and a release build wraps around to
  \<open>now + 2^64 - timestamp\<close>, so the entry counts as stale unless the clock went back
  by more than \<open>2^64 - ttl\<close> milliseconds.
\<close>

theorem is_valid_clock_backwards:
  "now < timestamp item \<Longrightarrow>
     is_valid Debug c item now = None \<and>
     is_valid Release c item now = Some (unat now + 2 ^ 64 - unat (timestamp item) < unat (cache_ttl c))"
  by (simp add: is_valid_def word_less_nat_alt[of "_ - _"] unat_sub_wrap)

theorem is_valid_clock_backwards_witness:
  "(5::u64) < timestamp \<lparr>eta = 5, timestamp = 100\<rparr> \<and>
   is_valid Debug eta_cache_new \<lparr>eta = 5, timestamp = 100\<rparr> 5 = None \<and>
   is_valid Release eta_cache_new \<lparr>eta = 5, timestamp = 100\<rparr> 5 = Some False"
proof -
  have a: "(5::u64) < timestamp \<lparr>eta = 5, timestamp = 100\<rparr>" by simp
  show ?thesis using is_valid_clock_backwards [OF a, of eta_cache_new] a by simp
qed

text \<open>
  C22: Storing refines the abstract map of fresh entries: right after
  \<open>set(key, eta)\<close>, the fresh entries are the previous ones with \<open>key\<close> now
  mapped to \<open>eta\<close> (an insert/lookup round trip that leaves the other keys as they
  were).
\<close>

theorem fresh_view_set:
  "0 < cache_ttl c \<Longrightarrow> fresh_view (eta_cache_set c key e now) now = (fresh_view c now)(key \<mapsto> e)"
  by (auto simp: fresh_view_def fun_eq_iff split: option.split)

theorem fresh_view_set_witness:
  "0 < cache_ttl eta_cache_new \<and>
   fresh_view (eta_cache_set eta_cache_new ''1-7'' 12 500) 500 = [''1-7'' \<mapsto> 12]"
proof -
  have a: "0 < cache_ttl eta_cache_new" by simp
  have "fresh_view eta_cache_new 500 = Map.empty"
    by (simp add: fresh_view_def eta_cache_new_def fun_eq_iff)
  with fresh_view_set [OF a, of "''1-7''" 12 500] a show ?thesis by simp
qed

end
