(* ===== verification/Globals.thy ===== *)
theory Globals
  imports Cache
begin

text \<open>
  The process-wide state of \<open>lib.rs\<close> and the transport it talks to.
  \<^item> \<open>app_state\<close> holds the two \<open>lazy_static\<close> globals: \<open>ETA_CACHE\<close>, an
    \<open>EtaCache\<close> behind a \<open>Mutex\<close>, and \<open>ROBOTS_CHECK_DONE\<close>, the memoised
    robots.txt verdict (\<open>None\<close> until the first check). The verdict's mutex is not
    modelled: its critical sections (a \<open>match\<close> on \<open>as_ref()\<close> and a
    \<open>replace\<close>) cannot panic, so it is never poisoned and its \<open>lock().unwrap()\<close>
    never fails. A third field, \<open>net_log\<close>, records every URL handed to the
    transport, in order: the observable network traffic of the program.
  \<^item> The transport (\<open>reqwest::get\<close>) is a parameter: a function from a URL to a
    transport error or a response, whose \<open>text()\<close> (\<open>resp_text\<close>) may itself fail.
\<close>

record http_response =
  status :: nat
  resp_text :: "string result"

type_synonym transport = "string \<Rightarrow> http_response result"

record app_state =
  eta_cache_mx :: "eta_cache mutex"
  robots_check_done :: "unit result option"
  net_log :: "string list"

definition init_state :: app_state where
  "init_state = \<lparr>eta_cache_mx = new_mutex eta_cache_new, robots_check_done = None, net_log = []\<rparr>"

definition http_get :: "transport \<Rightarrow> string \<Rightarrow> app_state \<Rightarrow> http_response result \<times> app_state" where
  "http_get tr url s = (tr url, s\<lparr>net_log := net_log s @ [url]\<rparr>)"

lemma http_get_simps [simp]:
  "fst (http_get tr url s) = tr url"
  "eta_cache_mx (snd (http_get tr url s)) = eta_cache_mx s"
  "robots_check_done (snd (http_get tr url s)) = robots_check_done s"
  "net_log (snd (http_get tr url s)) = net_log s @ [url]"
  by (simp_all add: http_get_def)

end
