(* ===== verification/Robots.thy ===== *)
theory Robots
  imports Globals
begin

text \<open>
  The crawl-permission gate: \<open>check_robots_txt\<close> and the loop at the start of
  \<open>fetch_eta_inner\<close> (\<open>lib.rs\<close>) that consults and records the memoised verdict
  \<open>ROBOTS_CHECK_DONE\<close>. The loop reads the verdict; on \<open>None\<close> it runs the
  check, records its result with \<open>replace\<close>, returns an error at once and otherwise
  goes round again, where it finds the recorded \<open>Ok\<close> and breaks. It terminates
  because the recursive call is made only from a state with no verdict into a state
  with one. The theorems say when the gate permits, that it fetches the robots
  document at most once per process, and that a recorded verdict is final.
\<close>

definition robots_expected :: string where
  "robots_expected = ''User-agent: *'' @ [CHR 0x0A] @ ''Disallow:''"

text \<open>\<open>StatusCode::is_success\<close>: a 2xx status.\<close>

definition is_success :: "nat \<Rightarrow> bool" where
  "is_success st \<longleftrightarrow> 200 \<le> st \<and> st < 300"

text \<open>
  The verdict \<open>check_robots_txt\<close> computes from what its two awaits deliver
  (\<open>reqwest::get\<close> and \<open>text()\<close>), and the function itself: one request, then
  the verdict.
\<close>

definition robots_verdict :: "http_response result \<Rightarrow> unit result" where
  "robots_verdict response =
     (case response of
        Inl e \<Rightarrow> Inl (''Failed to fetch robots.txt: '' @ e)
      | Inr resp \<Rightarrow>
          if \<not> is_success (status resp) then Inr ()
          else (case resp_text resp of
                  Inl e \<Rightarrow> Inl (''Failed to read robots.txt content: '' @ e)
                | Inr content \<Rightarrow>
                    if content \<noteq> robots_expected
                    then Inl ''Please check robots.txt manually''
                    else Inr ()))"

definition check_robots_txt :: "transport \<Rightarrow> app_state \<Rightarrow> unit result \<times> app_state" where
  "check_robots_txt tr s =
     (let (response, s') = http_get tr ROBOTS_TXT_URL s in (robots_verdict response, s'))"

lemma check_robots_txt_state:
  "snd (check_robots_txt tr s) = s\<lparr>net_log := net_log s @ [ROBOTS_TXT_URL]\<rparr>"
  by (simp add: check_robots_txt_def http_get_def)

function robots_gate :: "transport \<Rightarrow> app_state \<Rightarrow> unit result \<times> app_state" where
  "robots_gate tr s =
     (case robots_check_done s of
        Some (Inr _) \<Rightarrow> (Inr (), s)
      | Some (Inl e) \<Rightarrow> (Inl e, s)
      | None \<Rightarrow>
          (let (check_result, s1) = check_robots_txt tr s;
               s2 = s1\<lparr>robots_check_done := Some check_result\<rparr>
           in case check_result of
                Inl e \<Rightarrow> (Inl e, s2)
              | Inr _ \<Rightarrow> robots_gate tr s2))"
  by pat_completeness auto
termination
  by (relation "measure (\<lambda>(tr, s). if robots_check_done s = None then 1 else 0)") auto

declare robots_gate.simps [simp del]

lemma robots_gate_recorded:
  "robots_check_done s = Some v \<Longrightarrow> robots_gate tr s = (v, s)"
  by (cases v) (auto simp: robots_gate.simps)

lemma robots_gate_unchecked:
  assumes "robots_check_done s = None"
  shows "robots_gate tr s =
           (fst (check_robots_txt tr s),
            (snd (check_robots_txt tr s))\<lparr>robots_check_done := Some (fst (check_robots_txt tr s))\<rparr>)"
proof (cases "fst (check_robots_txt tr s)")
  case (Inl e)
  with assms show ?thesis
    by (subst robots_gate.simps) (simp add: case_prod_beta)
next
  case (Inr u)
  with assms show ?thesis
    by (subst robots_gate.simps) (simp add: case_prod_beta robots_gate_recorded)
qed

lemma check_robots_txt_result:
  "fst (check_robots_txt tr s) = robots_verdict (tr ROBOTS_TXT_URL)"
  by (simp add: check_robots_txt_def http_get_def)

text \<open>
  C6: On the first call of a process, the gate permits exactly when the robots
  document is fetched and either its status is not a success or its body is
  exactly \<open>User-agent: *\<close>, a newline, \<open>Disallow:\<close>. A transport failure on the
  robots URL is a denial, not a permission.
\<close>

theorem robots_gate_first_call:
  "robots_check_done s = None \<Longrightarrow>
     fst (robots_gate tr s) = Inr () \<longleftrightarrow>
     (case tr ROBOTS_TXT_URL of
        Inl e \<Rightarrow> False
      | Inr resp \<Rightarrow> \<not> is_success (status resp) \<or> resp_text resp = Inr robots_expected)"
  by (simp add: robots_gate_unchecked check_robots_txt_result robots_verdict_def split: sum.split)

theorem robots_gate_first_call_witness:
  "robots_check_done init_state = None \<and>
   fst (robots_gate (\<lambda>url. Inr \<lparr>status = 404, resp_text = Inr ''''\<rparr>) init_state) = Inr () \<and>
   fst (robots_gate (\<lambda>url. Inl ''connection refused'') init_state) \<noteq> Inr ()"
proof -
  have n: "robots_check_done init_state = None" by (simp add: init_state_def)
  show ?thesis
    using robots_gate_first_call [OF n, of "\<lambda>url. Inr \<lparr>status = 404, resp_text = Inr ''''\<rparr>"]
          robots_gate_first_call [OF n, of "\<lambda>url. Inl ''connection refused''"] n
    by (simp add: is_success_def)
qed

text \<open>
  C11: Once a verdict is recorded, the gate returns it and changes nothing: no
  robots.txt request is made again, whatever the transport would answer.
\<close>

theorem robots_gate_memo:
  "robots_check_done s = Some v \<Longrightarrow> robots_gate tr s = (v, s)"
  by (rule robots_gate_recorded)

theorem robots_gate_memo_witness:
  "robots_check_done (init_state\<lparr>robots_check_done := Some (Inl ''Please check robots.txt manually'')\<rparr>)
     = Some (Inl ''Please check robots.txt manually'') \<and>
   robots_gate (\<lambda>url. Inl ''unused'') (init_state\<lparr>robots_check_done := Some (Inl ''Please check robots.txt manually'')\<rparr>) =
     (Inl ''Please check robots.txt manually'',
      init_state\<lparr>robots_check_done := Some (Inl ''Please check robots.txt manually'')\<rparr>)"
proof -
  have r: "robots_check_done (init_state\<lparr>robots_check_done := Some (Inl ''Please check robots.txt manually'')\<rparr>)
     = Some (Inl ''Please check robots.txt manually'')" by simp
  show ?thesis using robots_gate_memo [OF r] r by simp
qed

lemma robots_gate_frame:
  "robots_check_done (snd (robots_gate tr s)) = Some (fst (robots_gate tr s)) \<and>
   eta_cache_mx (snd (robots_gate tr s)) = eta_cache_mx s \<and>
   net_log (snd (robots_gate tr s)) =
     net_log s @ (if robots_check_done s = None then [ROBOTS_TXT_URL] else [])"
proof (cases "robots_check_done s")
  case None
  then show ?thesis by (simp add: robots_gate_unchecked check_robots_txt_state)
next
  case (Some v)
  then show ?thesis by (simp add: robots_gate_recorded)
qed


text \<open>
  C17: Every call of the gate returns, leaves the verdict it returned recorded,
  does not touch the cache, and requests the robots document once if no verdict
  was recorded before and never otherwise.
\<close>

theorem robots_gate_records:
  "robots_check_done (snd (robots_gate tr s)) = Some (fst (robots_gate tr s)) \<and>
   eta_cache_mx (snd (robots_gate tr s)) = eta_cache_mx s \<and>
   net_log (snd (robots_gate tr s)) =
     net_log s @ (if robots_check_done s = None then [ROBOTS_TXT_URL] else [])"
  by (rule robots_gate_frame)

text \<open>
  C16: A transport failure while fetching robots.txt is recorded as the final
  verdict: the first call fails with \<open>Failed to fetch robots.txt: e\<close>, and every
  later call fails with the same message without another request, even when the
  transport has recovered.
\<close>

theorem robots_transport_failure_final:
  assumes "robots_check_done s = None" "tr ROBOTS_TXT_URL = Inl e"
  shows "fst (robots_gate tr s) = Inl (''Failed to fetch robots.txt: '' @ e) \<and>
         robots_gate tr' (snd (robots_gate tr s)) =
           (Inl (''Failed to fetch robots.txt: '' @ e), snd (robots_gate tr s))"
proof -
  have f: "fst (robots_gate tr s) = Inl (''Failed to fetch robots.txt: '' @ e)"
    using assms by (simp add: robots_gate_unchecked check_robots_txt_result robots_verdict_def)
  moreover have "robots_check_done (snd (robots_gate tr s)) = Some (Inl (''Failed to fetch robots.txt: '' @ e))"
    using assms by (simp add: robots_gate_unchecked check_robots_txt_result robots_verdict_def)
  ultimately show ?thesis by (simp add: robots_gate_recorded)
qed

theorem robots_transport_failure_final_witness:
  "robots_gate (\<lambda>url. Inr \<lparr>status = 200, resp_text = Inr robots_expected\<rparr>)
      (snd (robots_gate (\<lambda>url. Inl ''timeout'') init_state)) =
   (Inl (''Failed to fetch robots.txt: '' @ ''timeout''), snd (robots_gate (\<lambda>url. Inl ''timeout'') init_state))"
proof -
  have n: "robots_check_done init_state = None" by (simp add: init_state_def)
  have t: "(\<lambda>url. Inl ''timeout'' :: http_response result) ROBOTS_TXT_URL = Inl ''timeout''" by simp
  show ?thesis using robots_transport_failure_final [OF n t] by blast
qed

end
