(* ===== verification/Orchestrator.thy ===== *)
theory Orchestrator
  imports Extractor Robots
begin

text \<open>
  The query orchestrator of \<open>lib.rs\<close>: \<open>fetch_eta_inner\<close> (the robots gate,
  the page request built by \<open>eta_url!\<close>, the body, the extractor) and the Tauri
  command \<open>fetch_eta\<close> (the cache key, the lookup under the cache lock, the
  fetch on a miss, the store under a fresh acquisition of the lock). One call is a
  function of the state: the build (a debug build panics where \<open>is_valid\<close>
  underflows), the transport, the two clock readings (\<open>t_get\<close> by \<open>is_valid\<close>,
  \<open>t_set\<close> by \<open>CacheItem::new\<close> after the network round trip), the stop and the
  route. A panic is an outcome of its own: it unwinds through the held cache guard,
  which poisons the cache mutex.
\<close>

datatype 'a outcome = Returned "'a result" | Panicked string

definition cache_key :: "string \<Rightarrow> string \<Rightarrow> string" where
  "cache_key stop route = stop @ ''-'' @ route"

text \<open>
  The atomic blocks of the command, between its \<open>await\<close> points:
  \<^item> \<open>cache_lookup\<close>: the first critical section of \<open>fetch_eta\<close> (lock, get,
    \<open>is_valid\<close>, unlock); a panic in \<open>is_valid\<close> poisons the mutex;
  \<^item> \<open>eta_of_response\<close>: what \<open>fetch_eta_inner\<close> does with the page response
    (the body, then the extractor);
  \<^item> \<open>cache_store\<close>: the second critical section (lock again, \<open>set\<close>, unlock).
\<close>

datatype lookup_res = LockFailed string | Hit int | Miss | Panic string

definition cache_lookup :: "build \<Rightarrow> clock \<Rightarrow> string \<Rightarrow> app_state \<Rightarrow> lookup_res \<times> app_state" where
  "cache_lookup b t_get key s =
     (case mutex_lock (eta_cache_mx s) of
        Inl e \<Rightarrow> (LockFailed e, s)
      | Inr c \<Rightarrow>
          (case eta_cache_get c key of
             None \<Rightarrow> (Miss, s)
           | Some item \<Rightarrow>
               (case is_valid_at b c item t_get of
                  Inl m \<Rightarrow> (Panic m, s\<lparr>eta_cache_mx := (eta_cache_mx s)\<lparr>poisoned := True\<rparr>\<rparr>)
                | Inr valid \<Rightarrow> if valid then (Hit (eta item), s) else (Miss, s))))"

definition eta_of_response :: "string \<Rightarrow> http_response result \<Rightarrow> int result" where
  "eta_of_response route response =
     (case response of
        Inl e \<Rightarrow> Inl e
      | Inr resp \<Rightarrow>
          (case resp_text resp of
             Inl e \<Rightarrow> Inl e
           | Inr html \<Rightarrow> extract_eta route html))"

definition cache_store :: "clock \<Rightarrow> string \<Rightarrow> int \<Rightarrow> app_state \<Rightarrow> int outcome \<times> app_state" where
  "cache_store t_set key eta_v s =
     (case mutex_lock (eta_cache_mx s) of
        Inl e \<Rightarrow> (Returned (Inl (''Failed to acquire cache lock for update: '' @ e)), s)
      | Inr c \<Rightarrow>
          (case eta_cache_set_at c key eta_v t_set of
             Inl m \<Rightarrow> (Panicked m, s\<lparr>eta_cache_mx := (eta_cache_mx s)\<lparr>poisoned := True\<rparr>\<rparr>)
           | Inr c' \<Rightarrow> (Returned (Inr eta_v), s\<lparr>eta_cache_mx := (eta_cache_mx s)\<lparr>mdata := c'\<rparr>\<rparr>)))"

definition fetch_eta_inner :: "transport \<Rightarrow> string \<Rightarrow> string \<Rightarrow> app_state \<Rightarrow> int result \<times> app_state" where
  "fetch_eta_inner tr stop route s =
     (case robots_gate tr s of
        (Inl e, s1) \<Rightarrow> (Inl e, s1)
      | (Inr _, s1) \<Rightarrow>
          (let (response, s2) = http_get tr (eta_url BASE_URL route stop) s1
           in (eta_of_response route response, s2)))"

text \<open>The miss path of \<open>fetch_eta\<close>: fetch, then store under a new lock.\<close>

definition fetch_eta_miss ::
  "transport \<Rightarrow> clock \<Rightarrow> string \<Rightarrow> string \<Rightarrow> string \<Rightarrow> app_state \<Rightarrow> int outcome \<times> app_state" where
  "fetch_eta_miss tr t_set stop route key s =
     (case fetch_eta_inner tr stop route s of
        (Inr eta_v, s1) \<Rightarrow> cache_store t_set key eta_v s1
      | (Inl e, s1) \<Rightarrow> (Returned (Inl e), s1))"

definition fetch_eta ::
  "build \<Rightarrow> transport \<Rightarrow> clock \<Rightarrow> clock \<Rightarrow> string \<Rightarrow> string \<Rightarrow> app_state \<Rightarrow> int outcome \<times> app_state" where
  "fetch_eta b tr t_get t_set stop route s =
     (let key = cache_key stop route in
      case cache_lookup b t_get key s of
        (LockFailed e, s1) \<Rightarrow> (Returned (Inl (''Failed to acquire cache lock: '' @ e)), s1)
      | (Panic m, s1) \<Rightarrow> (Panicked m, s1)
      | (Hit v, s1) \<Rightarrow> (Returned (Inr v), s1)
      | (Miss, s1) \<Rightarrow> fetch_eta_miss tr t_set stop route key s1)"

section \<open>Runs of the command\<close>

text \<open>
  The states a process reaches by a sequence of \<open>fetch_eta\<close> commands from its
  start, in one build, with any transport, clock readings and arguments.
\<close>

inductive reachable :: "build \<Rightarrow> app_state \<Rightarrow> bool" for b where
  start: "reachable b init_state"
| step: "reachable b s \<Longrightarrow> fetch_eta b tr t_get t_set stop route s = (out, s') \<Longrightarrow> reachable b s'"

section \<open>Characteristic equations\<close>

lemma fetch_eta_inner_result:
  "fst (fetch_eta_inner tr stop route s) =
     (case fst (robots_gate tr s) of
        Inl e \<Rightarrow> Inl e
      | Inr _ \<Rightarrow>
          (case tr (eta_url BASE_URL route stop) of
             Inl e \<Rightarrow> Inl e
           | Inr resp \<Rightarrow>
               (case resp_text resp of Inl e \<Rightarrow> Inl e | Inr html \<Rightarrow> extract_eta route html)))"
  by (cases "robots_gate tr s")
     (auto simp: fetch_eta_inner_def http_get_def eta_of_response_def Let_def split: sum.split)

lemma fetch_eta_inner_state:
  "snd (fetch_eta_inner tr stop route s) =
     (case fst (robots_gate tr s) of
        Inl e \<Rightarrow> snd (robots_gate tr s)
      | Inr _ \<Rightarrow>
          (snd (robots_gate tr s))\<lparr>net_log := net_log (snd (robots_gate tr s)) @ [eta_url BASE_URL route stop]\<rparr>)"
  by (cases "robots_gate tr s")
     (auto simp: fetch_eta_inner_def http_get_def eta_of_response_def Let_def split: sum.split)

lemma fetch_eta_inner_frame:
  "eta_cache_mx (snd (fetch_eta_inner tr stop route s)) = eta_cache_mx s \<and>
   robots_check_done (snd (fetch_eta_inner tr stop route s)) = Some (fst (robots_gate tr s))"
  using robots_gate_frame [of tr s]
  by (simp add: fetch_eta_inner_state split: sum.split)

lemma fetch_eta_inner_Inr_permitted:
  "fst (fetch_eta_inner tr stop route s) = Inr v \<Longrightarrow> fst (robots_gate tr s) = Inr ()"
  by (auto simp: fetch_eta_inner_result split: sum.splits)

lemma fetch_eta_miss_eq:
  "fetch_eta_miss tr t_set stop route key s =
     (case fst (fetch_eta_inner tr stop route s) of
        Inl e \<Rightarrow> (Returned (Inl e), snd (fetch_eta_inner tr stop route s))
      | Inr v \<Rightarrow>
          if poisoned (eta_cache_mx s)
          then (Returned (Inl (''Failed to acquire cache lock for update: '' @ poison_msg)),
                snd (fetch_eta_inner tr stop route s))
          else (case t_set of
                  None \<Rightarrow>
                    (Panicked panic_before_epoch,
                     (snd (fetch_eta_inner tr stop route s))\<lparr>eta_cache_mx :=
                        (eta_cache_mx s)\<lparr>poisoned := True\<rparr>\<rparr>)
                | Some now \<Rightarrow>
                    (Returned (Inr v),
                     (snd (fetch_eta_inner tr stop route s))\<lparr>eta_cache_mx :=
                        (eta_cache_mx s)\<lparr>mdata := eta_cache_set (mdata (eta_cache_mx s)) key v now\<rparr>\<rparr>)))"
  using fetch_eta_inner_frame [of tr stop route s]
  by (cases "fetch_eta_inner tr stop route s")
     (auto simp: fetch_eta_miss_def cache_store_def mutex_lock_def split: sum.split option.split)

lemma fetch_eta_poisoned:
  "poisoned (eta_cache_mx s) \<Longrightarrow>
     fetch_eta b tr t_get t_set stop route s =
       (Returned (Inl (''Failed to acquire cache lock: '' @ poison_msg)), s)"
  by (simp add: fetch_eta_def cache_lookup_def mutex_lock_def)

lemma fetch_eta_hit:
  "\<not> poisoned (eta_cache_mx s) \<Longrightarrow>
   eta_cache_get (mdata (eta_cache_mx s)) (cache_key stop route) = Some item \<Longrightarrow>
   is_valid_at b (mdata (eta_cache_mx s)) item t_get = Inr True \<Longrightarrow>
     fetch_eta b tr t_get t_set stop route s = (Returned (Inr (eta item)), s)"
  by (simp add: fetch_eta_def cache_lookup_def mutex_lock_def)

lemma fetch_eta_goes_to_network:
  "\<not> poisoned (eta_cache_mx s) \<Longrightarrow>
   eta_cache_get (mdata (eta_cache_mx s)) (cache_key stop route) = None \<or>
   (\<exists>item. eta_cache_get (mdata (eta_cache_mx s)) (cache_key stop route) = Some item \<and>
           is_valid_at b (mdata (eta_cache_mx s)) item t_get = Inr False) \<Longrightarrow>
     fetch_eta b tr t_get t_set stop route s = fetch_eta_miss tr t_set stop route (cache_key stop route) s"
  by (auto simp: fetch_eta_def cache_lookup_def mutex_lock_def)

lemma fetch_eta_miss_frame:
  "cache_ttl (mdata (eta_cache_mx (snd (fetch_eta_miss tr t_set stop route key s)))) =
     cache_ttl (mdata (eta_cache_mx s)) \<and>
   net_log (snd (fetch_eta_miss tr t_set stop route key s)) = net_log (snd (fetch_eta_inner tr stop route s))"
  using fetch_eta_inner_frame [of tr stop route s]
  by (simp add: fetch_eta_miss_eq split: sum.split option.split)

section \<open>The invariant of reachable states\<close>

definition state_inv :: "app_state \<Rightarrow> bool" where
  "state_inv s \<longleftrightarrow> cache_ttl (mdata (eta_cache_mx s)) = CACHE_TTL_MS"

lemma cache_lookup_ttl: "mdata (eta_cache_mx (snd (cache_lookup b t_get key s))) = mdata (eta_cache_mx s)"
  by (simp add: cache_lookup_def split: sum.split option.split)

lemma fetch_eta_state_inv:
  assumes "state_inv s" "fetch_eta b tr t_get t_set stop route s = (out, s')"
  shows "state_inv s'"
proof -
  let ?k = "cache_key stop route"
  obtain r s1 where l: "cache_lookup b t_get ?k s = (r, s1)" by fastforce
  then have "mdata (eta_cache_mx s1) = mdata (eta_cache_mx s)"
    using cache_lookup_ttl [of b t_get ?k s] by simp
  with assms l fetch_eta_miss_frame [of tr t_set stop route ?k s1] show ?thesis
    by (cases r) (auto simp: fetch_eta_def state_inv_def)
qed

lemma state_inv_init: "state_inv init_state"
  by (simp add: state_inv_def init_state_def new_mutex_def eta_cache_new_def)

lemma reachable_state_inv: "reachable b s \<Longrightarrow> state_inv s"
proof (induction rule: reachable.induct)
  case start
  then show ?case by (rule state_inv_init)
next
  case (step s tr t_get t_set stop route out s')
  then show ?case by (blast intro: fetch_eta_state_inv)
qed

section \<open>Cache behaviour of the command\<close>

lemma is_valid_fresh_view:
  "is_valid b c item now = Some x \<Longrightarrow> cache c key = Some item \<Longrightarrow>
     x \<longleftrightarrow> fresh_view c now key = Some (eta item)"
  by (auto simp: is_valid_def fresh_view_def split: if_splits)

text \<open>
  A successful call made when the cache held no fresh entry for its key fetched the
  page, found the gate open, and stored the ETA with the second clock reading.
\<close>

lemma fetch_eta_stores:
  assumes call: "fetch_eta b tr (Some t_get) (Some t_set) stop route s = (Returned (Inr v), s1)"
    and miss: "fresh_view (mdata (eta_cache_mx s)) t_get (cache_key stop route) = None"
  shows "\<not> poisoned (eta_cache_mx s1) \<and>
         eta_cache_mx s1 =
           (eta_cache_mx s)\<lparr>mdata := eta_cache_set (mdata (eta_cache_mx s)) (cache_key stop route) v t_set\<rparr> \<and>
         robots_check_done s1 = Some (Inr ()) \<and>
         fst (fetch_eta_inner tr stop route s) = Inr v \<and>
         s1 = (snd (fetch_eta_inner tr stop route s))\<lparr>eta_cache_mx :=
           (eta_cache_mx s)\<lparr>mdata := eta_cache_set (mdata (eta_cache_mx s)) (cache_key stop route) v t_set\<rparr>\<rparr>"
proof -
  let ?c = "mdata (eta_cache_mx s)" and ?k = "cache_key stop route"
  have np: "\<not> poisoned (eta_cache_mx s)"
    using call by (auto simp: fetch_eta_poisoned)
  have "fetch_eta b tr (Some t_get) (Some t_set) stop route s = fetch_eta_miss tr (Some t_set) stop route ?k s"
  proof (cases "eta_cache_get ?c ?k")
    case None
    with np show ?thesis by (simp add: fetch_eta_goes_to_network)
  next
    case (Some item)
    show ?thesis
    proof (cases "is_valid b ?c item t_get")
      case None
      with np Some call show ?thesis by (simp add: fetch_eta_def cache_lookup_def mutex_lock_def)
    next
      case (Some x)
      with \<open>eta_cache_get ?c ?k = Some item\<close> miss have "\<not> x"
        by (auto simp: eta_cache_get_def dest: is_valid_fresh_view)
      with Some \<open>eta_cache_get ?c ?k = Some item\<close> np show ?thesis
        by (auto intro: fetch_eta_goes_to_network)
    qed
  qed
  with call have m: "fetch_eta_miss tr (Some t_set) stop route ?k s = (Returned (Inr v), s1)" by simp
  then have inner: "fst (fetch_eta_inner tr stop route s) = Inr v"
    by (auto simp: fetch_eta_miss_eq np split: sum.splits)
  with m np have s1: "s1 = (snd (fetch_eta_inner tr stop route s))\<lparr>eta_cache_mx :=
           (eta_cache_mx s)\<lparr>mdata := eta_cache_set ?c ?k v t_set\<rparr>\<rparr>"
    by (simp add: fetch_eta_miss_eq)
  have "robots_check_done s1 = Some (Inr ())"
    using s1 fetch_eta_inner_frame [of tr stop route s] fetch_eta_inner_Inr_permitted [OF inner]
    by simp
  with s1 np inner show ?thesis by simp
qed

text \<open>
  C1: Two queries within the lifetime of the entry the first one stored get the
  same ETA, and the second makes no request at all (the state, network log
  included, is unchanged). This holds for any two queries whose cache keys
  coincide: the key \<open>stop-route\<close> is ambiguous when an identifier contains
  \<open>-\<close>, so the query for stop \<open>1\<close>, route \<open>2-3\<close> is answered with the ETA
  fetched for stop \<open>1-2\<close>, route \<open>3\<close>.
\<close>

theorem fetch_eta_within_ttl:
  assumes reach: "reachable b s"
    and call: "fetch_eta b tr (Some t_get) (Some t_set) stop route s = (Returned (Inr v), s1)"
    and miss: "fresh_view (mdata (eta_cache_mx s)) t_get (cache_key stop route) = None"
    and key: "cache_key stop' route' = cache_key stop route"
    and time: "t_set \<le> t" "unat t - unat t_set < unat CACHE_TTL_MS"
  shows "fetch_eta b tr' (Some t) t' stop' route' s1 = (Returned (Inr v), s1)"
proof -
  have st: "\<not> poisoned (eta_cache_mx s1)"
    "eta_cache_mx s1 =
       (eta_cache_mx s)\<lparr>mdata := eta_cache_set (mdata (eta_cache_mx s)) (cache_key stop route) v t_set\<rparr>"
    using fetch_eta_stores [OF call miss] by blast+
  have ttl: "cache_ttl (mdata (eta_cache_mx s)) = CACHE_TTL_MS"
    using reachable_state_inv [OF reach] by (simp add: state_inv_def)
  let ?item = "\<lparr>eta = v, timestamp = t_set\<rparr>"
  have get: "eta_cache_get (mdata (eta_cache_mx s1)) (cache_key stop' route') = Some ?item"
    using st(2) key by simp
  have "is_valid_at b (mdata (eta_cache_mx s1)) ?item (Some t) = Inr True"
    using is_valid_elapsed [of ?item t b] time st(2) ttl by simp
  from fetch_eta_hit [OF st(1) get this] show ?thesis by simp
qed

text \<open>
  A transport for the witnesses: no robots document (status 404), and a page that
  shows route 3 as due.
\<close>

definition demo_transport :: transport where
  "demo_transport url =
     (if url = ROBOTS_TXT_URL then Inr \<lparr>status = 404, resp_text = Inr ''''\<rparr>
      else Inr \<lparr>status = 200, resp_text = Inr (route_label ''3'' @ due_label)\<rparr>)"

lemma demo_first_call:
  "fetch_eta Release demo_transport (Some 0) (Some 10) ''1-2'' ''3'' init_state =
     (Returned (Inr 1), snd (fetch_eta Release demo_transport (Some 0) (Some 10) ''1-2'' ''3'' init_state))"
proof -
  have np: "\<not> poisoned (eta_cache_mx init_state)"
    and ne: "eta_cache_get (mdata (eta_cache_mx init_state)) (cache_key ''1-2'' ''3'') = None"
    and nr: "robots_check_done init_state = None"
    by (simp_all add: init_state_def new_mutex_def eta_cache_new_def eta_cache_get_def)
  have g: "fst (robots_gate demo_transport init_state) = Inr ()"
    using nr by (simp add: robots_gate_unchecked check_robots_txt_result robots_verdict_def demo_transport_def is_success_def)
  have e: "extract_eta ''3'' (route_label ''3'' @ due_label) = Inr 1"
    by (simp add: route_label_def config_defs extract_eta_def eta_after_label_def
                  route_label_at_def digits_label_at_def is_digit_def)
  have u: "eta_url BASE_URL ''3'' ''1-2'' \<noteq> ROBOTS_TXT_URL"
    by (simp add: eta_url_def BASE_URL_def ROBOTS_TXT_URL_def)
  have "fst (fetch_eta_inner demo_transport ''1-2'' ''3'' init_state) = Inr 1"
    using g e u by (simp add: fetch_eta_inner_result demo_transport_def)
  then show ?thesis
    using np ne by (simp add: fetch_eta_goes_to_network fetch_eta_miss_eq)
qed

theorem fetch_eta_within_ttl_witness:
  "fetch_eta Release demo_transport (Some 500) (Some 510) ''1'' ''2-3''
     (snd (fetch_eta Release demo_transport (Some 0) (Some 10) ''1-2'' ''3'' init_state)) =
   (Returned (Inr 1), snd (fetch_eta Release demo_transport (Some 0) (Some 10) ''1-2'' ''3'' init_state))"
proof -
  have miss: "fresh_view (mdata (eta_cache_mx init_state)) 0 (cache_key ''1-2'' ''3'') = None"
    by (simp add: init_state_def new_mutex_def eta_cache_new_def fresh_view_def)
  have key: "cache_key ''1'' ''2-3'' = cache_key ''1-2'' ''3''" by (simp add: cache_key_def)
  have time: "(10::u64) \<le> 500" "unat (500::u64) - unat (10::u64) < unat CACHE_TTL_MS"
    by (simp_all add: CACHE_TTL_MS_def)
  show ?thesis
    by (rule fetch_eta_within_ttl [OF reachable.start demo_first_call miss key time])
qed

lemma fetch_eta_inner_permitted_state:
  "robots_check_done s = Some (Inr u) \<Longrightarrow>
     snd (fetch_eta_inner tr stop route s) = s\<lparr>net_log := net_log s @ [eta_url BASE_URL route stop]\<rparr>"
  by (simp add: fetch_eta_inner_state robots_gate_recorded)

text \<open>
  C2: Once the lifetime of the stored entry has passed, the same query fetches
  again, and makes exactly one request: the tracker page for its stop and route
  (the robots verdict is already recorded).
\<close>

theorem fetch_eta_after_ttl:
  assumes reach: "reachable b s"
    and call: "fetch_eta b tr (Some t_get) (Some t_set) stop route s = (Returned (Inr v), s1)"
    and miss: "fresh_view (mdata (eta_cache_mx s)) t_get (cache_key stop route) = None"
    and time: "t_set \<le> t" "unat CACHE_TTL_MS \<le> unat t - unat t_set"
  shows "net_log (snd (fetch_eta b tr' (Some t) t' stop route s1)) = net_log s1 @ [eta_url BASE_URL route stop]"
proof -
  let ?item = "\<lparr>eta = v, timestamp = t_set\<rparr>"
  have st: "\<not> poisoned (eta_cache_mx s1)"
    "eta_cache_mx s1 =
       (eta_cache_mx s)\<lparr>mdata := eta_cache_set (mdata (eta_cache_mx s)) (cache_key stop route) v t_set\<rparr>"
    "robots_check_done s1 = Some (Inr ())"
    using fetch_eta_stores [OF call miss] by blast+
  have ttl: "cache_ttl (mdata (eta_cache_mx s)) = CACHE_TTL_MS"
    using reachable_state_inv [OF reach] by (simp add: state_inv_def)
  have get: "eta_cache_get (mdata (eta_cache_mx s1)) (cache_key stop route) = Some ?item"
    using st(2) by simp
  have "is_valid_at b (mdata (eta_cache_mx s1)) ?item (Some t) = Inr False"
    using is_valid_elapsed [of ?item t b] time st(2) ttl by simp
  with st(1) get have "fetch_eta b tr' (Some t) t' stop route s1 =
      fetch_eta_miss tr' t' stop route (cache_key stop route) s1"
    by (blast intro: fetch_eta_goes_to_network)
  then show ?thesis
    using fetch_eta_miss_frame [of tr' t' stop route "cache_key stop route" s1]
          fetch_eta_inner_permitted_state [OF st(3)]
    by simp
qed

theorem fetch_eta_after_ttl_witness:
  "net_log (snd (fetch_eta Release demo_transport (Some 1010) (Some 1020) ''1-2'' ''3''
      (snd (fetch_eta Release demo_transport (Some 0) (Some 10) ''1-2'' ''3'' init_state)))) =
   net_log (snd (fetch_eta Release demo_transport (Some 0) (Some 10) ''1-2'' ''3'' init_state)) @
     [eta_url BASE_URL ''3'' ''1-2'']"
proof -
  have miss: "fresh_view (mdata (eta_cache_mx init_state)) 0 (cache_key ''1-2'' ''3'') = None"
    by (simp add: init_state_def new_mutex_def eta_cache_new_def fresh_view_def)
  have time: "(10::u64) \<le> 1010" "unat CACHE_TTL_MS \<le> unat (1010::u64) - unat (10::u64)"
    by (simp_all add: CACHE_TTL_MS_def)
  show ?thesis
    by (rule fetch_eta_after_ttl [OF reachable.start demo_first_call miss time])
qed

text \<open>
  C12: An error of the fetch (robots denial, transport error, extraction error) is
  returned verbatim by the command, and nothing is stored in the cache.
\<close>

theorem fetch_eta_error_not_cached:
  assumes "\<not> poisoned (eta_cache_mx s)"
    "eta_cache_get (mdata (eta_cache_mx s)) (cache_key stop route) = None"
    "fst (fetch_eta_inner tr stop route s) = Inl e"
  shows "fetch_eta b tr t_get t_set stop route s = (Returned (Inl e), snd (fetch_eta_inner tr stop route s)) \<and>
         eta_cache_mx (snd (fetch_eta b tr t_get t_set stop route s)) = eta_cache_mx s"
  using assms fetch_eta_inner_frame [of tr stop route s]
  by (simp add: fetch_eta_goes_to_network fetch_eta_miss_eq)

theorem fetch_eta_error_not_cached_witness:
  "fetch_eta Release demo_transport (Some 0) (Some 10) ''1'' ''9'' init_state =
     (Returned (Inl (err_route_not_found ''9'')), snd (fetch_eta_inner demo_transport ''1'' ''9'' init_state))"
proof -
  have np: "\<not> poisoned (eta_cache_mx init_state)"
    and ne: "eta_cache_get (mdata (eta_cache_mx init_state)) (cache_key ''1'' ''9'') = None"
    and nr: "robots_check_done init_state = None"
    by (simp_all add: init_state_def new_mutex_def eta_cache_new_def eta_cache_get_def)
  have g: "fst (robots_gate demo_transport init_state) = Inr ()"
    using nr by (simp add: robots_gate_unchecked check_robots_txt_result robots_verdict_def demo_transport_def is_success_def)
  have x: "extract_eta ''9'' (route_label ''3'' @ due_label) = Inl (err_route_not_found ''9'')"
    by (simp add: route_label_def config_defs extract_eta_def route_label_at_def digits_label_at_def
                  is_digit_def)
  have u: "eta_url BASE_URL ''9'' ''1'' \<noteq> ROBOTS_TXT_URL"
    by (simp add: eta_url_def BASE_URL_def ROBOTS_TXT_URL_def)
  have i: "fst (fetch_eta_inner demo_transport ''1'' ''9'' init_state) = Inl (err_route_not_found ''9'')"
    using g x u by (simp add: fetch_eta_inner_result demo_transport_def)
  show ?thesis using fetch_eta_error_not_cached [OF np ne i] by blast
qed

text \<open>
  C21: In a debug build, a lookup whose clock reading is earlier than the entry's
  timestamp panics inside the cache's critical section; the unwinding poisons
  the cache mutex, and from then on every call of the command, whatever its
  arguments, fails with \<open>Failed to acquire cache lock\<close> without a request.
\<close>

theorem debug_clock_backwards_poisons:
  assumes "\<not> poisoned (eta_cache_mx s)"
    "eta_cache_get (mdata (eta_cache_mx s)) (cache_key stop route) = Some item"
    "t_get < timestamp item"
  shows "fst (fetch_eta Debug tr (Some t_get) t_set stop route s) = Panicked panic_sub_overflow \<and>
         fetch_eta b' tr' t t' stop' route' (snd (fetch_eta Debug tr (Some t_get) t_set stop route s)) =
           (Returned (Inl (''Failed to acquire cache lock: '' @ poison_msg)),
            snd (fetch_eta Debug tr (Some t_get) t_set stop route s))"
proof -
  have "fetch_eta Debug tr (Some t_get) t_set stop route s =
          (Panicked panic_sub_overflow, s\<lparr>eta_cache_mx := (eta_cache_mx s)\<lparr>poisoned := True\<rparr>\<rparr>)"
    using assms by (simp add: fetch_eta_def cache_lookup_def mutex_lock_def is_valid_def)
  then show ?thesis by (simp add: fetch_eta_poisoned)
qed

theorem debug_clock_backwards_poisons_witness:
  "fst (fetch_eta Debug demo_transport (Some 50) (Some 60) ''1-2'' ''3''
        (snd (fetch_eta Debug demo_transport (Some 0) (Some 100) ''1-2'' ''3'' init_state))) = Panicked panic_sub_overflow"
proof -
  have miss: "fresh_view (mdata (eta_cache_mx init_state)) 0 (cache_key ''1-2'' ''3'') = None"
    by (simp add: init_state_def new_mutex_def eta_cache_new_def fresh_view_def)
  have first: "fetch_eta Debug demo_transport (Some 0) (Some 100) ''1-2'' ''3'' init_state =
     (Returned (Inr 1), snd (fetch_eta Debug demo_transport (Some 0) (Some 100) ''1-2'' ''3'' init_state))"
  proof -
    have np: "\<not> poisoned (eta_cache_mx init_state)"
      and ne: "eta_cache_get (mdata (eta_cache_mx init_state)) (cache_key ''1-2'' ''3'') = None"
      by (simp_all add: init_state_def new_mutex_def eta_cache_new_def eta_cache_get_def)
    have "fst (fetch_eta_inner demo_transport ''1-2'' ''3'' init_state) = Inr 1"
      using demo_first_call np ne
      by (simp add: fetch_eta_goes_to_network fetch_eta_miss_eq split: sum.splits)
    with np ne show ?thesis
      by (simp add: fetch_eta_goes_to_network fetch_eta_miss_eq)
  qed
  let ?s1 = "snd (fetch_eta Debug demo_transport (Some 0) (Some 100) ''1-2'' ''3'' init_state)"
  have st: "\<not> poisoned (eta_cache_mx ?s1)"
    "eta_cache_mx ?s1 = (eta_cache_mx init_state)\<lparr>mdata :=
        eta_cache_set (mdata (eta_cache_mx init_state)) (cache_key ''1-2'' ''3'') 1 100\<rparr>"
    using fetch_eta_stores [OF first miss] by blast+
  have get: "eta_cache_get (mdata (eta_cache_mx ?s1)) (cache_key ''1-2'' ''3'') = Some \<lparr>eta = 1, timestamp = 100\<rparr>"
    using st(2) by simp
  have lt: "(50::u64) < timestamp \<lparr>eta = 1, timestamp = 100\<rparr>" by simp
  show ?thesis using debug_clock_backwards_poisons [OF st(1) get lt] by blast
qed

text \<open>
  C8: A clock before the Unix epoch panics inside a critical section of the cache,
  in either build: at the lookup when the key has an entry (the reading of
  \<open>is_valid\<close>), and at the store after a successful fetch (the reading of
  \<open>CacheItem::new\<close>). The unwinding poisons the cache mutex, after which every
  call fails with \<open>Failed to acquire cache lock\<close> (\<open>fetch_eta_poisoned\<close>).
\<close>

theorem clock_before_epoch_poisons:
  assumes "\<not> poisoned (eta_cache_mx s)"
  shows "(eta_cache_get (mdata (eta_cache_mx s)) (cache_key stop route) \<noteq> None \<longrightarrow>
            fetch_eta b tr None t_set stop route s =
              (Panicked panic_before_epoch, s\<lparr>eta_cache_mx := (eta_cache_mx s)\<lparr>poisoned := True\<rparr>\<rparr>)) \<and>
         (eta_cache_get (mdata (eta_cache_mx s)) (cache_key stop route) = None \<longrightarrow>
          fst (fetch_eta_inner tr stop route s) = Inr v \<longrightarrow>
            fetch_eta b tr t_get None stop route s =
              (Panicked panic_before_epoch,
               (snd (fetch_eta_inner tr stop route s))\<lparr>eta_cache_mx := (eta_cache_mx s)\<lparr>poisoned := True\<rparr>\<rparr>))"
  using assms by (auto simp: fetch_eta_def cache_lookup_def mutex_lock_def fetch_eta_miss_eq)

theorem clock_before_epoch_poisons_witness:
  "fetch_eta Release demo_transport None (Some 10) ''1-2'' ''3''
     (snd (fetch_eta Release demo_transport (Some 0) (Some 10) ''1-2'' ''3'' init_state)) =
   (Panicked panic_before_epoch,
    (snd (fetch_eta Release demo_transport (Some 0) (Some 10) ''1-2'' ''3'' init_state))\<lparr>eta_cache_mx :=
       (eta_cache_mx (snd (fetch_eta Release demo_transport (Some 0) (Some 10) ''1-2'' ''3'' init_state)))\<lparr>poisoned := True\<rparr>\<rparr>) \<and>
   fetch_eta Release demo_transport (Some 0) None ''1-2'' ''3'' init_state =
   (Panicked panic_before_epoch,
    (snd (fetch_eta_inner demo_transport ''1-2'' ''3'' init_state))\<lparr>eta_cache_mx :=
       (eta_cache_mx init_state)\<lparr>poisoned := True\<rparr>\<rparr>)"
proof -
  let ?s1 = "snd (fetch_eta Release demo_transport (Some 0) (Some 10) ''1-2'' ''3'' init_state)"
  have miss: "fresh_view (mdata (eta_cache_mx init_state)) 0 (cache_key ''1-2'' ''3'') = None"
    by (simp add: init_state_def new_mutex_def eta_cache_new_def fresh_view_def)
  have st: "\<not> poisoned (eta_cache_mx ?s1)"
    "eta_cache_mx ?s1 = (eta_cache_mx init_state)\<lparr>mdata :=
        eta_cache_set (mdata (eta_cache_mx init_state)) (cache_key ''1-2'' ''3'') 1 10\<rparr>"
    using fetch_eta_stores [OF demo_first_call miss] by blast+
  have get: "eta_cache_get (mdata (eta_cache_mx ?s1)) (cache_key ''1-2'' ''3'') \<noteq> None"
    using st(2) by simp
  have np: "\<not> poisoned (eta_cache_mx init_state)"
    and ne: "eta_cache_get (mdata (eta_cache_mx init_state)) (cache_key ''1-2'' ''3'') = None"
    by (simp_all add: init_state_def new_mutex_def eta_cache_new_def eta_cache_get_def)
  have inner: "fst (fetch_eta_inner demo_transport ''1-2'' ''3'' init_state) = Inr 1"
    using demo_first_call np ne
    by (simp add: fetch_eta_goes_to_network fetch_eta_miss_eq split: sum.splits)
  show ?thesis
    using clock_before_epoch_poisons [OF st(1), where stop = "''1-2''" and route = "''3''" and b = Release
            and tr = demo_transport and t_set = "Some 10"]
          clock_before_epoch_poisons [OF np, where stop = "''1-2''" and route = "''3''" and b = Release
            and tr = demo_transport and v = 1 and t_get = "Some 0"]
          get ne inner
    by simp
qed

text \<open>
  C13: While the recorded robots verdict is a denial, a query that misses the cache
  fails with the denial's message and makes no request.
\<close>

theorem fetch_eta_denied:
  "\<not> poisoned (eta_cache_mx s) \<Longrightarrow>
   eta_cache_get (mdata (eta_cache_mx s)) (cache_key stop route) = None \<Longrightarrow>
   robots_check_done s = Some (Inl e) \<Longrightarrow>
     fetch_eta b tr t_get t_set stop route s = (Returned (Inl e), s)"
  by (simp add: fetch_eta_goes_to_network fetch_eta_miss_eq fetch_eta_inner_result
                fetch_eta_inner_state robots_gate_recorded)

theorem fetch_eta_denied_witness:
  "fetch_eta Release demo_transport (Some 0) (Some 10) ''1'' ''3''
     (init_state\<lparr>robots_check_done := Some (Inl ''Please check robots.txt manually'')\<rparr>) =
   (Returned (Inl ''Please check robots.txt manually''),
    init_state\<lparr>robots_check_done := Some (Inl ''Please check robots.txt manually'')\<rparr>)"
proof -
  have np: "\<not> poisoned (eta_cache_mx (init_state\<lparr>robots_check_done := Some (Inl ''Please check robots.txt manually'')\<rparr>))"
    and ne: "eta_cache_get (mdata (eta_cache_mx (init_state\<lparr>robots_check_done := Some (Inl ''Please check robots.txt manually'')\<rparr>)))
               (cache_key ''1'' ''3'') = None"
    by (simp_all add: init_state_def new_mutex_def eta_cache_new_def eta_cache_get_def)
  show ?thesis by (rule fetch_eta_denied [OF np ne]) simp
qed

text \<open>
  C18: The first query of a process requests robots.txt first and then, if the
  gate permits, the tracker page for its stop and route, and nothing else.
\<close>

theorem fetch_eta_first_requests:
  "net_log (snd (fetch_eta b tr t_get t_set stop route init_state)) =
     ROBOTS_TXT_URL # (if fst (robots_gate tr init_state) = Inr () then [eta_url BASE_URL route stop] else [])"
proof -
  have np: "\<not> poisoned (eta_cache_mx init_state)"
    and ne: "eta_cache_get (mdata (eta_cache_mx init_state)) (cache_key stop route) = None"
    and nr: "robots_check_done init_state = None" and nl: "net_log init_state = []"
    by (simp_all add: init_state_def new_mutex_def eta_cache_new_def eta_cache_get_def)
  have "net_log (snd (fetch_eta b tr t_get t_set stop route init_state)) =
          net_log (snd (fetch_eta_inner tr stop route init_state))"
    using np ne fetch_eta_miss_frame by (simp add: fetch_eta_goes_to_network)
  also have "\<dots> = ROBOTS_TXT_URL # (if fst (robots_gate tr init_state) = Inr () then [eta_url BASE_URL route stop] else [])"
    using robots_gate_frame [of tr init_state] nr nl
    by (auto simp: fetch_eta_inner_state split: sum.split)
  finally show ?thesis .
qed

end
