(* ===== verification/Concurrency.thy ===== *)
theory Concurrency
  imports Orchestrator
begin

text \<open>
  Concurrent commands. The Tauri runtime polls any number of \<open>fetch_eta\<close>
  futures at once; each runs without interruption from one \<open>await\<close> to the next
  and may be suspended at each of them. A task is a command in flight: its
  arguments and the await it is suspended at. One step of a task is the whole run
  of code from where it resumes to the next await (or to its return), taken from
  the source:
  \<^item> from \<open>Start\<close>: the cache lookup (\<open>cache_lookup\<close>, lines 176--203); on a miss,
    \<open>fetch_eta_inner\<close> up to its first await (\<open>robots_loop_head\<close>, lines 107--120
    and 129--134): read the verdict; on \<open>Ok\<close> break and send the page request, on
    \<open>Err\<close> return it, on \<open>None\<close> send the robots.txt request;
  \<^item> from \<open>AwaitRobots\<close>: the robots response arrives (its two awaits,
    \<open>reqwest::get\<close> and \<open>text()\<close>, touch no shared state and are one step);
    the verdict is recorded with \<open>replace\<close>, an error is returned, otherwise the
    loop goes round and its head runs again (lines 83--101, 120--126, 129--134);
  \<^item> from \<open>AwaitPage\<close>: the page response arrives; body, extraction, and on success
    the second critical section (\<open>eta_of_response\<close>, \<open>cache_store\<close>, lines
    134--171 and 206--219).
  Responses and clock readings are chosen by the environment at each step. The
  system is the shared \<open>app_state\<close> and a list of tasks; a step spawns a task or
  lets one task take its next step.

  The theorems: concurrent stores to one key are last-write-wins; the race on the
  robots verdict, where the later response overwrites a verdict another command
  has already acted on; and every task finishes within three of its own steps
  however the others are interleaved (a ranking function, \<open>task_measure\<close>). A
  task run alone (\<open>solo\<close>) computes the sequential \<open>fetch_eta\<close> of
  \<open>Orchestrator\<close>.
\<close>

datatype task_pc =
    Start
  | AwaitRobots
  | AwaitPage
  | Finished "int outcome"

record task =
  stop_of :: string
  route_of :: string
  pc :: task_pc

definition new_task :: "string \<Rightarrow> string \<Rightarrow> task" where
  "new_task stop route = \<lparr>stop_of = stop, route_of = route, pc = Start\<rparr>"

text \<open>
  The head of the robots loop in \<open>fetch_eta_inner\<close>, run until the next await:
  the verdict is read under \<open>ROBOTS_CHECK_DONE\<close>'s lock, then the page request
  (verdict \<open>Ok\<close>, the loop breaks), the error (verdict \<open>Err\<close>), or the
  robots.txt request (no verdict) is made.
\<close>

definition robots_loop_head :: "task \<Rightarrow> app_state \<Rightarrow> task \<times> app_state" where
  "robots_loop_head t s =
     (case robots_check_done s of
        Some (Inr _) \<Rightarrow>
          (t\<lparr>pc := AwaitPage\<rparr>, s\<lparr>net_log := net_log s @ [eta_url BASE_URL (route_of t) (stop_of t)]\<rparr>)
      | Some (Inl e) \<Rightarrow> (t\<lparr>pc := Finished (Returned (Inl e))\<rparr>, s)
      | None \<Rightarrow> (t\<lparr>pc := AwaitRobots\<rparr>, s\<lparr>net_log := net_log s @ [ROBOTS_TXT_URL]\<rparr>))"

definition task_step ::
  "build \<Rightarrow> clock \<Rightarrow> http_response result \<Rightarrow> task \<Rightarrow> app_state \<Rightarrow> (task \<times> app_state) option" where
  "task_step b now response t s =
     (case pc t of
        Start \<Rightarrow>
          (case cache_lookup b now (cache_key (stop_of t) (route_of t)) s of
             (LockFailed e, s1) \<Rightarrow>
               Some (t\<lparr>pc := Finished (Returned (Inl (''Failed to acquire cache lock: '' @ e)))\<rparr>, s1)
           | (Panic m, s1) \<Rightarrow> Some (t\<lparr>pc := Finished (Panicked m)\<rparr>, s1)
           | (Hit v, s1) \<Rightarrow> Some (t\<lparr>pc := Finished (Returned (Inr v))\<rparr>, s1)
           | (Miss, s1) \<Rightarrow> Some (robots_loop_head t s1))
      | AwaitRobots \<Rightarrow>
          (let check_result = robots_verdict response;
               s1 = s\<lparr>robots_check_done := Some check_result\<rparr>
           in case check_result of
                Inl e \<Rightarrow> Some (t\<lparr>pc := Finished (Returned (Inl e))\<rparr>, s1)
              | Inr _ \<Rightarrow> Some (robots_loop_head t s1))
      | AwaitPage \<Rightarrow>
          (case eta_of_response (route_of t) response of
             Inl e \<Rightarrow> Some (t\<lparr>pc := Finished (Returned (Inl e))\<rparr>, s)
           | Inr v \<Rightarrow>
               (case cache_store now (cache_key (stop_of t) (route_of t)) v s of
                  (out, s1) \<Rightarrow> Some (t\<lparr>pc := Finished out\<rparr>, s1)))
      | Finished out \<Rightarrow> None)"

record sys =
  shared :: app_state
  tasks :: "task list"

definition init_sys :: sys where
  "init_sys = \<lparr>shared = init_state, tasks = []\<rparr>"

inductive sys_step :: "build \<Rightarrow> sys \<Rightarrow> sys \<Rightarrow> bool" for b where
  spawn: "sys_step b S (S\<lparr>tasks := tasks S @ [new_task stop route]\<rparr>)"
| run: "i < length (tasks S) \<Longrightarrow> task_step b now response (tasks S ! i) (shared S) = Some (t', s') \<Longrightarrow>
          sys_step b S \<lparr>shared = s', tasks = (tasks S)[i := t']\<rparr>"

lemma sys_step_elim:
  assumes "sys_step b S S'"
  obtains (spawn) stop route where "S' = S\<lparr>tasks := tasks S @ [new_task stop route]\<rparr>"
  | (run) i now response t' s' where "i < length (tasks S)"
      "task_step b now response (tasks S ! i) (shared S) = Some (t', s')"
      "S' = \<lparr>shared = s', tasks = (tasks S)[i := t']\<rparr>"
  using assms by (cases rule: sys_step.cases) auto

lemma sys_step_spawnI:
  "S' = \<lparr>shared = s, tasks = ts @ [new_task stop route]\<rparr> \<Longrightarrow> sys_step b \<lparr>shared = s, tasks = ts\<rparr> S'"
  using sys_step.spawn [of b "\<lparr>shared = s, tasks = ts\<rparr>" stop route] by simp

lemma sys_step_runI:
  "i < length ts \<Longrightarrow> task_step b now response (ts ! i) s = Some (t', s') \<Longrightarrow>
     S' = \<lparr>shared = s', tasks = ts[i := t']\<rparr> \<Longrightarrow> sys_step b \<lparr>shared = s, tasks = ts\<rparr> S'"
  using sys_step.run [of i "\<lparr>shared = s, tasks = ts\<rparr>" b now response t' s'] by simp

lemma sys_step_other:
  "sys_step b S S' \<Longrightarrow> i < length (tasks S) \<Longrightarrow> tasks S' ! i \<noteq> tasks S ! i \<Longrightarrow>
     \<exists>now response s'. task_step b now response (tasks S ! i) (shared S) = Some (tasks S' ! i, s') \<and>
                       shared S' = s'"
  by (erule sys_step_elim) (auto simp: nth_append nth_list_update split: if_splits)

section \<open>Single steps\<close>

lemma robots_loop_head_frame:
  "robots_check_done (snd (robots_loop_head t s)) = robots_check_done s \<and>
   eta_cache_mx (snd (robots_loop_head t s)) = eta_cache_mx s"
  by (simp add: robots_loop_head_def split: option.split sum.split)

lemma cache_lookup_frame:
  "robots_check_done (snd (cache_lookup b now key s)) = robots_check_done s \<and>
   net_log (snd (cache_lookup b now key s)) = net_log s"
  by (simp add: cache_lookup_def split: sum.split option.split)

lemma cache_store_frame:
  "robots_check_done (snd (cache_store now key v s)) = robots_check_done s \<and>
   net_log (snd (cache_store now key v s)) = net_log s"
  by (simp add: cache_store_def split: sum.split)

text \<open>No step forgets a recorded robots verdict.\<close>

lemma task_step_verdict_kept:
  assumes "task_step b now response t s = Some (t', s')" "robots_check_done s \<noteq> None"
  shows "robots_check_done s' \<noteq> None"
proof (cases "pc t")
  case Start
  with assms cache_lookup_frame [of b now "cache_key (stop_of t) (route_of t)" s]
       robots_loop_head_frame [of t "snd (cache_lookup b now (cache_key (stop_of t) (route_of t)) s)"]
  show ?thesis by (auto simp: task_step_def split: prod.splits lookup_res.splits)
next
  case AwaitRobots
  with assms robots_loop_head_frame [of t "s\<lparr>robots_check_done := Some (robots_verdict response)\<rparr>"]
  show ?thesis by (auto simp: task_step_def Let_def split: sum.splits)
next
  case AwaitPage
  show ?thesis
  proof (cases "eta_of_response (route_of t) response")
    case (Inr v)
    with AwaitPage assms cache_store_frame [of now "cache_key (stop_of t) (route_of t)" v s] show ?thesis
      by (auto simp: task_step_def split: prod.splits)
  qed (use AwaitPage assms in \<open>auto simp: task_step_def\<close>)
qed (use assms in \<open>simp add: task_step_def\<close>)


section \<open>Termination of every task\<close>

text \<open>
  The number of steps a task may still take. The robots loop goes round at most
  twice: after \<open>replace\<close> its head reads the verdict just recorded, and no step
  of any task resets a recorded verdict to \<open>None\<close>.
\<close>

definition task_measure :: "task \<Rightarrow> app_state \<Rightarrow> nat" where
  "task_measure t s =
     (case pc t of
        Start \<Rightarrow> (if robots_check_done s = None then 3 else 2)
      | AwaitRobots \<Rightarrow> 2
      | AwaitPage \<Rightarrow> 1
      | Finished out \<Rightarrow> 0)"

lemma task_measure_pc:
  "pc t = Start \<Longrightarrow> task_measure t s = (if robots_check_done s = None then 3 else 2)"
  "pc t = AwaitRobots \<Longrightarrow> task_measure t s = 2"
  by (simp_all add: task_measure_def)

lemma task_measure_loop_head:
  "robots_loop_head t s = (t', s1) \<Longrightarrow>
     task_measure t' s' \<le> (if robots_check_done s = None then 2 else 1)"
  by (auto simp: robots_loop_head_def task_measure_def split: option.splits sum.splits)

lemma task_measure_own_step:
  assumes "task_step b now response t s = Some (t', s')"
  shows "task_measure t' s' < task_measure t s"
proof (cases "pc t")
  case Start
  let ?k = "cache_key (stop_of t) (route_of t)"
  obtain r s1 where l: "cache_lookup b now ?k s = (r, s1)" by fastforce
  with cache_lookup_frame [of b now ?k s] have v: "robots_check_done s1 = robots_check_done s" by simp
  show ?thesis
  proof (cases r)
    case Miss
    with Start assms l have "robots_loop_head t s1 = (t', s')" by (simp add: task_step_def)
    from task_measure_loop_head [OF this, of s'] v Start show ?thesis by (auto simp: task_measure_pc split: if_splits)
  qed (use Start assms l in \<open>auto simp: task_step_def task_measure_def\<close>)
next
  case AwaitRobots
  show ?thesis
  proof (cases "robots_verdict response")
    case (Inr u)
    with AwaitRobots assms
    have "robots_loop_head t (s\<lparr>robots_check_done := Some (Inr u)\<rparr>) = (t', s')"
      by (simp add: task_step_def)
    from task_measure_loop_head [OF this, of s'] AwaitRobots show ?thesis by (simp add: task_measure_pc)
  qed (use AwaitRobots assms in \<open>auto simp: task_step_def task_measure_def\<close>)
next
  case AwaitPage
  then show ?thesis
    using assms by (auto simp: task_step_def task_measure_def split: sum.splits prod.splits)
qed (use assms in \<open>simp add: task_step_def\<close>)

lemma task_measure_other_step:
  assumes "task_step b now response t s = Some (t', s')"
  shows "task_measure u s' \<le> task_measure u s"
proof (cases "robots_check_done s")
  case (Some v)
  then have "robots_check_done s' \<noteq> None" using task_step_verdict_kept [OF assms] by simp
  with Some show ?thesis by (auto simp: task_measure_def split: task_pc.split)
qed (auto simp: task_measure_def split: task_pc.split)

text \<open>
  C10: Every task finishes after at most three of its own steps, whatever the
  other tasks do: a new task starts at measure at most 3, each of its own steps
  lowers its measure, a step of any other task (or a spawn) never raises it, and
  measure 0 means finished.
\<close>

theorem task_terminates:
  assumes "sys_step b S S'" "i < length (tasks S)"
  shows "task_measure (tasks S' ! i) (shared S') \<le> task_measure (tasks S ! i) (shared S) \<and>
         (tasks S' ! i \<noteq> tasks S ! i \<longrightarrow>
            task_measure (tasks S' ! i) (shared S') < task_measure (tasks S ! i) (shared S)) \<and>
         task_measure (new_task stop route) s \<le> 3 \<and>
         (task_measure t s = 0 \<longleftrightarrow> (\<exists>out. pc t = Finished out))"
proof -
  have m: "task_measure t s = 0 \<longleftrightarrow> (\<exists>out. pc t = Finished out)"
    by (auto simp: task_measure_def split: task_pc.split)
  have n: "task_measure (new_task stop route) s \<le> 3" by (simp add: task_measure_def new_task_def)
  from assms(1) show ?thesis
  proof (cases rule: sys_step_elim)
    case (spawn stop' route')
    with assms(2) m n show ?thesis by (simp add: nth_append)
  next
    case (run j now response t' s')
    show ?thesis
    proof (cases "i = j")
      case True
      with run m n task_measure_own_step [OF run(2)] show ?thesis by simp
    next
      case False
      with run m n task_measure_other_step [OF run(2), of "tasks S ! i"] show ?thesis by simp
    qed
  qed
qed

theorem task_terminates_witness:
  "task_measure (tasks \<lparr>shared = init_state, tasks = [new_task ''1'' ''3'']\<rparr> ! 0)
     (shared \<lparr>shared = init_state, tasks = [new_task ''1'' ''3'']\<rparr>) \<le>
   task_measure (tasks \<lparr>shared = init_state, tasks = [new_task ''1'' ''3'']\<rparr> ! 0) init_state"
proof -
  have st: "sys_step Release \<lparr>shared = init_state, tasks = [new_task ''1'' ''3'']\<rparr>
              \<lparr>shared = init_state, tasks = [new_task ''1'' ''3'', new_task ''2'' ''3'']\<rparr>"
    by (rule sys_step_spawnI) simp
  from task_terminates [OF st, of 0] show ?thesis by simp
qed


section \<open>Concurrent stores to one key\<close>

lemma cache_store_Returned_Inr:
  assumes "cache_store now key w s = (Returned (Inr v), s')"
  shows "v = w \<and> (\<exists>n. cache (mdata (eta_cache_mx s')) =
                       (cache (mdata (eta_cache_mx s)))(key \<mapsto> \<lparr>eta = v, timestamp = n\<rparr>))"
  using assms by (cases now) (auto simp: cache_store_def mutex_lock_def split: if_splits)

lemma task_step_page_stores:
  assumes "task_step b now response t s = Some (t', s')" "pc t = AwaitPage"
    "pc t' = Finished (Returned (Inr v))"
  shows "\<exists>n. cache (mdata (eta_cache_mx s')) =
           (cache (mdata (eta_cache_mx s)))(cache_key (stop_of t) (route_of t) \<mapsto> \<lparr>eta = v, timestamp = n\<rparr>)"
proof (cases "eta_of_response (route_of t) response")
  case (Inr w)
  obtain out s1 where st: "cache_store now (cache_key (stop_of t) (route_of t)) w s = (out, s1)" by fastforce
  with assms Inr have "out = Returned (Inr v)" "s1 = s'" by (auto simp: task_step_def)
  with st show ?thesis by (auto dest: cache_store_Returned_Inr)
qed (use assms in \<open>auto simp: task_step_def\<close>)

text \<open>
  C7: Concurrent stores to one key are last-write-wins. Whatever the other tasks
  have done meanwhile, a task whose page step succeeds with ETA \<open>v\<close> leaves the
  cache as it found it except that its key now maps to \<open>v\<close> with a fresh
  timestamp, replacing any entry stored for that key before, by a command earlier
  or by a concurrent one. The map holds one entry per key.
\<close>

theorem store_last_write_wins:
  assumes "sys_step b S S'" "i < length (tasks S)" "pc (tasks S ! i) = AwaitPage"
    "pc (tasks S' ! i) = Finished (Returned (Inr v))"
  shows "\<exists>now. cache (mdata (eta_cache_mx (shared S'))) =
           (cache (mdata (eta_cache_mx (shared S))))
             (cache_key (stop_of (tasks S ! i)) (route_of (tasks S ! i)) \<mapsto> \<lparr>eta = v, timestamp = now\<rparr>)"
proof -
  from assms(3,4) have "tasks S' ! i \<noteq> tasks S ! i" by auto
  from sys_step_other [OF assms(1,2) this] obtain now response
    where "task_step b now response (tasks S ! i) (shared S) = Some (tasks S' ! i, shared S')" by blast
  from task_step_page_stores [OF this assms(3,4)] show ?thesis .
qed

text \<open>
  A key stored by an earlier command with ETA 5 at time 7, and a task about to
  receive the page that shows its route as due.
\<close>

definition lww_shared :: app_state where
  "lww_shared = init_state\<lparr>eta_cache_mx := new_mutex (eta_cache_set eta_cache_new ''1-3'' 5 7)\<rparr>"

definition lww_before :: sys where
  "lww_before = \<lparr>shared = lww_shared, tasks = [\<lparr>stop_of = ''1'', route_of = ''3'', pc = AwaitPage\<rparr>]\<rparr>"

definition lww_after :: sys where
  "lww_after =
     \<lparr>shared = lww_shared\<lparr>eta_cache_mx := new_mutex (eta_cache_set (eta_cache_set eta_cache_new ''1-3'' 5 7) ''1-3'' 1 8)\<rparr>,
      tasks = [\<lparr>stop_of = ''1'', route_of = ''3'', pc = Finished (Returned (Inr 1))\<rparr>]\<rparr>"

lemma demo_page_eta: "eta_of_response ''3'' (demo_transport (eta_url BASE_URL ''3'' ''1'')) = Inr 1"
proof -
  have "eta_url BASE_URL ''3'' ''1'' \<noteq> ROBOTS_TXT_URL"
    by (simp add: eta_url_def BASE_URL_def ROBOTS_TXT_URL_def)
  then show ?thesis
    by (simp add: demo_transport_def eta_of_response_def route_label_def config_defs extract_eta_def
                  eta_after_label_def route_label_at_def digits_label_at_def is_digit_def)
qed

theorem store_last_write_wins_witness:
  "\<exists>now. cache (mdata (eta_cache_mx (shared lww_after))) =
     (cache (mdata (eta_cache_mx lww_shared)))(''1-3'' \<mapsto> \<lparr>eta = 1, timestamp = now\<rparr>)"
proof -
  have st: "sys_step Release lww_before lww_after"
    unfolding lww_before_def
    by (rule sys_step_runI [where i = 0 and now = "Some 8" and response = "demo_transport (eta_url BASE_URL ''3'' ''1'')"])
       (simp_all add: task_step_def demo_page_eta cache_store_def mutex_lock_def new_mutex_def lww_shared_def
                      lww_after_def cache_key_def)
  from store_last_write_wins [OF st, of 0 1] show ?thesis
    by (simp add: lww_before_def lww_after_def cache_key_def)
qed


section \<open>The known race on the robots verdict\<close>

text \<open>Two robots responses for the run below: a denial body, and no document.\<close>

definition robots_denied :: "http_response result" where
  "robots_denied = Inr \<lparr>status = 200, resp_text = Inr ''User-agent: *''\<rparr>"

definition robots_absent :: "http_response result" where
  "robots_absent = Inr \<lparr>status = 404, resp_text = Inr ''''\<rparr>"

text \<open>
  C9: The robots verdict is not recorded once. Two commands that both find no
  verdict both request robots.txt; the first response to arrive records a
  permission, on which its command goes on to request the page, and the second
  response then overwrites the recorded permission with a denial, which every
  later command receives.
\<close>

theorem robots_race:
  "\<exists>S S'. (sys_step b)\<^sup>*\<^sup>* init_sys S \<and> sys_step b S S' \<and>
     robots_check_done (shared S) = Some (Inr ()) \<and>
     robots_check_done (shared S') = Some (Inl ''Please check robots.txt manually'') \<and>
     net_log (shared S') = [ROBOTS_TXT_URL, ROBOTS_TXT_URL, eta_url BASE_URL ''3'' ''1''] \<and>
     pc (tasks S' ! 0) = AwaitPage"
proof -
  let ?A = "new_task ''1'' ''3''" and ?B = "new_task ''2'' ''3''"
  let ?s0 = init_state
  let ?s1 = "init_state\<lparr>net_log := [ROBOTS_TXT_URL]\<rparr>"
  let ?s2 = "init_state\<lparr>net_log := [ROBOTS_TXT_URL, ROBOTS_TXT_URL]\<rparr>"
  let ?s3 = "init_state\<lparr>net_log := [ROBOTS_TXT_URL, ROBOTS_TXT_URL, eta_url BASE_URL ''3'' ''1''],
                         robots_check_done := Some (Inr ())\<rparr>"
  let ?s4 = "?s3\<lparr>robots_check_done := Some (Inl ''Please check robots.txt manually'')\<rparr>"
  have e: "eta_cache_get (mdata (eta_cache_mx init_state)) k = None" for k
    by (simp add: init_state_def new_mutex_def eta_cache_new_def eta_cache_get_def)
  have np: "\<not> poisoned (eta_cache_mx init_state)" and nr: "robots_check_done init_state = None"
    by (simp_all add: init_state_def new_mutex_def)
  have miss: "cache_lookup b now k (init_state\<lparr>net_log := l\<rparr>) = (Miss, init_state\<lparr>net_log := l\<rparr>)" for now k l
    using e np by (simp add: cache_lookup_def mutex_lock_def)
  have st1: "sys_step b init_sys \<lparr>shared = ?s0, tasks = [?A]\<rparr>"
    unfolding init_sys_def by (rule sys_step_spawnI) simp
  have st2: "sys_step b \<lparr>shared = ?s0, tasks = [?A]\<rparr> \<lparr>shared = ?s0, tasks = [?A, ?B]\<rparr>"
    by (rule sys_step_spawnI) simp
  have st3: "sys_step b \<lparr>shared = ?s0, tasks = [?A, ?B]\<rparr>
                \<lparr>shared = ?s1, tasks = [?A\<lparr>pc := AwaitRobots\<rparr>, ?B]\<rparr>"
    using miss [of None _ "[]"]
    by (intro sys_step_runI [where i = 0 and now = None and response = robots_absent])
       (simp_all add: task_step_def robots_loop_head_def nr new_task_def init_state_def)
  have st4: "sys_step b \<lparr>shared = ?s1, tasks = [?A\<lparr>pc := AwaitRobots\<rparr>, ?B]\<rparr>
                \<lparr>shared = ?s2, tasks = [?A\<lparr>pc := AwaitRobots\<rparr>, ?B\<lparr>pc := AwaitRobots\<rparr>]\<rparr>"
    using miss [of None _ "[ROBOTS_TXT_URL]"]
    by (intro sys_step_runI [where i = 1 and now = None and response = robots_absent])
       (simp_all add: task_step_def robots_loop_head_def nr new_task_def init_state_def)
  have st5: "sys_step b \<lparr>shared = ?s2, tasks = [?A\<lparr>pc := AwaitRobots\<rparr>, ?B\<lparr>pc := AwaitRobots\<rparr>]\<rparr>
                \<lparr>shared = ?s3, tasks = [?A\<lparr>pc := AwaitPage\<rparr>, ?B\<lparr>pc := AwaitRobots\<rparr>]\<rparr>"
    by (rule sys_step_runI [where i = 0 and now = None and response = robots_absent])
       (simp_all add: task_step_def robots_loop_head_def new_task_def robots_verdict_def
                      robots_absent_def is_success_def)
  have st6: "sys_step b \<lparr>shared = ?s3, tasks = [?A\<lparr>pc := AwaitPage\<rparr>, ?B\<lparr>pc := AwaitRobots\<rparr>]\<rparr>
                \<lparr>shared = ?s4, tasks = [?A\<lparr>pc := AwaitPage\<rparr>,
                   ?B\<lparr>pc := Finished (Returned (Inl ''Please check robots.txt manually''))\<rparr>]\<rparr>"
    by (rule sys_step_runI [where i = 1 and now = None and response = robots_denied])
       (simp_all add: task_step_def new_task_def robots_verdict_def robots_denied_def is_success_def
                      robots_expected_def)
  have "(sys_step b)\<^sup>*\<^sup>* init_sys \<lparr>shared = ?s3, tasks = [?A\<lparr>pc := AwaitPage\<rparr>, ?B\<lparr>pc := AwaitRobots\<rparr>]\<rparr>"
    using st1 st2 st3 st4 st5
    by (meson rtranclp.rtrancl_refl rtranclp.rtrancl_into_rtrancl)
  with st6 show ?thesis by (intro exI conjI) auto
qed


section \<open>One task alone is the sequential command\<close>

text \<open>
  \<open>solo\<close> runs one task with no other task interleaved, the transport answering
  each request and the clock reading \<open>t_get\<close> at the lookup and \<open>t_set\<close> at the
  store. Three steps of fuel suffice: a task takes at most three steps.
\<close>

fun solo :: "nat \<Rightarrow> build \<Rightarrow> transport \<Rightarrow> clock \<Rightarrow> clock \<Rightarrow> task \<Rightarrow> app_state \<Rightarrow> task \<times> app_state" where
  "solo 0 b tr t_get t_set t s = (t, s)"
| "solo (Suc n) b tr t_get t_set t s =
     (case task_step b (if pc t = Start then t_get else t_set)
             (tr (if pc t = AwaitRobots then ROBOTS_TXT_URL else eta_url BASE_URL (route_of t) (stop_of t))) t s of
        None \<Rightarrow> (t, s)
      | Some (t', s') \<Rightarrow> solo n b tr t_get t_set t' s')"

lemma solo_finished: "pc t = Finished out \<Longrightarrow> solo n b tr t_get t_set t s = (t, s)"
  by (cases n) (simp_all add: task_step_def)

lemma solo_finished_upd:
  "solo n b tr t_get t_set (t\<lparr>pc := Finished out\<rparr>) s = (t\<lparr>pc := Finished out\<rparr>, s)"
  by (simp add: solo_finished)

lemma solo_page:
  assumes "pc t = AwaitPage"
  shows "solo (Suc n) b tr t_get t_set t s =
     (let r = (case eta_of_response (route_of t) (tr (eta_url BASE_URL (route_of t) (stop_of t))) of
                 Inl e \<Rightarrow> (Returned (Inl e), s)
               | Inr v \<Rightarrow> cache_store t_set (cache_key (stop_of t) (route_of t)) v s)
      in (t\<lparr>pc := Finished (fst r)\<rparr>, snd r))"
  using assms by (simp add: task_step_def solo_finished split: sum.split prod.split)

lemma solo_loop_head:
  "solo (Suc (Suc n)) b tr t_get t_set (fst (robots_loop_head t s)) (snd (robots_loop_head t s)) =
     (t\<lparr>pc := Finished (fst (fetch_eta_miss tr t_set (stop_of t) (route_of t) (cache_key (stop_of t) (route_of t)) s))\<rparr>,
      snd (fetch_eta_miss tr t_set (stop_of t) (route_of t) (cache_key (stop_of t) (route_of t)) s))"
proof (cases "robots_check_done s")
  case None
  let ?s1 = "s\<lparr>net_log := net_log s @ [ROBOTS_TXT_URL]\<rparr>"
  have gate: "robots_gate tr s =
      (robots_verdict (tr ROBOTS_TXT_URL), ?s1\<lparr>robots_check_done := Some (robots_verdict (tr ROBOTS_TXT_URL))\<rparr>)"
    using None by (simp add: robots_gate_unchecked check_robots_txt_result check_robots_txt_state)
  show ?thesis
  proof (cases "robots_verdict (tr ROBOTS_TXT_URL)")
    case (Inl e)
    with None gate show ?thesis
      by (simp add: robots_loop_head_def task_step_def solo_finished_upd fetch_eta_miss_def fetch_eta_inner_def)
  next
    case (Inr u)
    with None gate show ?thesis
      by (simp add: robots_loop_head_def task_step_def solo_finished_upd solo_page fetch_eta_miss_def fetch_eta_inner_def
                    http_get_def Let_def split: sum.split prod.split)
  qed
next
  case (Some r)
  then show ?thesis
    by (cases r) (simp_all add: robots_loop_head_def task_step_def solo_finished_upd solo_page fetch_eta_miss_def
                   fetch_eta_inner_def robots_gate_recorded http_get_def Let_def split: sum.split prod.split)
qed

lemma solo_refines_fetch_eta:
  "solo 3 b tr t_get t_set (new_task stop route) s =
     ((new_task stop route)\<lparr>pc := Finished (fst (fetch_eta b tr t_get t_set stop route s))\<rparr>,
      snd (fetch_eta b tr t_get t_set stop route s))"
proof -
  let ?t = "new_task stop route" and ?k = "cache_key stop route"
  obtain r s1 where l: "cache_lookup b t_get ?k s = (r, s1)" by fastforce
  show ?thesis
  proof (cases r)
    case Miss
    have "solo 3 b tr t_get t_set ?t s =
            solo (Suc (Suc 0)) b tr t_get t_set (fst (robots_loop_head ?t s1)) (snd (robots_loop_head ?t s1))"
      using l Miss unfolding numeral_3_eq_3
      by (subst solo.simps(2)) (simp add: task_step_def new_task_def split_beta del: solo.simps(2))
    also have "\<dots> = (?t\<lparr>pc := Finished (fst (fetch_eta_miss tr t_set stop route ?k s1))\<rparr>,
                      snd (fetch_eta_miss tr t_set stop route ?k s1))"
      by (simp only: solo_loop_head) (simp add: new_task_def)
    finally show ?thesis using l Miss by (simp add: fetch_eta_def)
  qed (use l in \<open>simp_all add: numeral_3_eq_3 task_step_def fetch_eta_def new_task_def solo_finished_upd\<close>)
qed

end
