(* ===== verification/Url.thy ===== *)
theory Url
  imports Config
begin

text \<open>
  The page request of \<open>fetch_eta_inner\<close> (\<open>eta_url!\<close> of \<open>config.rs\<close>)
  read back the way the tracker reads it: the query string after the first
  \<open>?\<close>, split at \<open>&\<close> into fields, a parameter the value of its first field
  \<open>name=value\<close>. \<open>format!\<close> does not percent-encode its arguments, so the
  round trip holds for identifiers without \<open>&\<close>, and a stop identifier with one
  adds parameters of its own to the request.
\<close>

fun split_on :: "char \<Rightarrow> string \<Rightarrow> string list" where
  "split_on c [] = [[]]"
| "split_on c (x # xs) =
     (let ws = split_on c xs in if x = c then [] # ws else (x # hd ws) # tl ws)"

lemma split_on_not_Nil [simp]: "split_on c s \<noteq> []"
  by (induction s) (auto simp: Let_def)

lemma split_on_append_notin [simp]:
  "c \<notin> set a \<Longrightarrow> split_on c (a @ b) = (let ws = split_on c b in (a @ hd ws) # tl ws)"
  by (induction a) (auto simp: Let_def)

lemma split_on_notin [simp]: "c \<notin> set s \<Longrightarrow> split_on c s = [s]"
  using split_on_append_notin [of c s "[]"] by simp

definition query_of :: "string \<Rightarrow> string" where
  "query_of url = drop 1 (dropWhile (\<lambda>x. x \<noteq> CHR ''?'') url)"

fun param_lookup :: "string \<Rightarrow> string list \<Rightarrow> string option" where
  "param_lookup n [] = None"
| "param_lookup n (f # fs) = (case match_lit (n @ ''='') f of Some v \<Rightarrow> Some v | None \<Rightarrow> param_lookup n fs)"

definition query_param :: "string \<Rightarrow> string \<Rightarrow> string option" where
  "query_param n url = param_lookup n (split_on CHR ''&'' (query_of url))"

lemma eta_url_query:
  "query_of (eta_url BASE_URL route stop) =
     ''route='' @ route @ ''&direction=---&displaydirection=---&stop='' @ stop @
     ''&findstop=on&selectedRtpiFeeds=&id='' @ stop"
  by (simp add: query_of_def eta_url_def BASE_URL_def)

text \<open>
  C19: The request URL carries the route in its \<open>route\<close> parameter and the stop in
  both its \<open>stop\<close> and \<open>id\<close> parameters, for any route and stop that contain
  no \<open>&\<close>.
\<close>

theorem eta_url_roundtrip:
  assumes "CHR ''&'' \<notin> set route" "CHR ''&'' \<notin> set stop"
  shows "query_param ''route'' (eta_url BASE_URL route stop) = Some route \<and>
         query_param ''stop'' (eta_url BASE_URL route stop) = Some stop \<and>
         query_param ''id'' (eta_url BASE_URL route stop) = Some stop"
  using assms by (simp add: query_param_def eta_url_query Let_def)

theorem eta_url_roundtrip_witness:
  "query_param ''route'' (eta_url BASE_URL ''3'' ''1'') = Some ''3'' \<and>
   query_param ''stop'' (eta_url BASE_URL ''3'' ''1'') = Some ''1'' \<and>
   query_param ''id'' (eta_url BASE_URL ''3'' ''1'') = Some ''1''"
  using eta_url_roundtrip [of "''3''" "''1''"] by simp

text \<open>
  C20: Identifiers are not escaped. For every route without \<open>&\<close> and every stop
  \<open>a&r\<close> with \<open>a\<close> free of \<open>&\<close>, the request's \<open>stop\<close> parameter is \<open>a\<close>,
  not the stop: the tracker is asked for another stop than the one the result is
  cached under, and the rest \<open>r\<close> of the identifier becomes fields of the query.
\<close>

theorem eta_url_unescaped:
  assumes "CHR ''&'' \<notin> set route" "CHR ''&'' \<notin> set a"
  shows "query_param ''stop'' (eta_url BASE_URL route (a @ CHR ''&'' # r)) = Some a \<and>
         a \<noteq> a @ CHR ''&'' # r"
  using assms by (simp add: query_param_def eta_url_query Let_def)

theorem eta_url_unescaped_witness:
  "query_param ''stop'' (eta_url BASE_URL ''3'' ''1&stop=9'') = Some ''1''"
  using eta_url_unescaped [of "''3''" "''1''" "''stop=9''"] by simp

end
