(* ===== verification/Spec2Isabelle.thy ===== *)
theory Spec2Isabelle
  imports Concurrency Url
begin

text \<open>
  \<^bold>\<open>A verified model of bus-eta-notifier's ETA pipeline.\<close>

  The program (\<open>src/src-tauri/src/lib.rs\<close> and \<open>config.rs\<close>) answers ``how many
  minutes until route R arrives at stop S'' for a Tauri front end. Its Tauri
  command \<open>fetch_eta\<close> looks the query up in a short-lived cache (\<open>ETA_CACHE\<close>);
  on a miss, \<open>fetch_eta_inner\<close> consults the memoised robots.txt verdict
  (\<open>ROBOTS_CHECK_DONE\<close>, fetched once by \<open>check_robots_txt\<close>), requests the
  tracker page built by \<open>eta_url!\<close>, scans it with three regular expressions for
  the route's label and the \<open>DUE\<close> or \<open>N&nbsp;MIN\<close> marker after it, and the
  command stores the result in the cache.

  \<^bold>\<open>Theories, in dependency order.\<close>
  \<^item> \<open>Prelude\<close>: \<open>'a result\<close> (Rust's \<open>Result<T, String>\<close>), \<open>u64\<close>,
    \<open>std::sync::Mutex\<close> as a record with a poison flag, the literal matcher
    \<open>match_lit\<close>, the substring scan \<open>occurs\<close> (proved equal to \<open>sublist\<close>),
    decimal digits and their value.
  \<^item> \<open>Config\<close>: everything of \<open>config.rs\<close>: URLs, the \<open>eta_url!\<close> template,
    \<open>CACHE_TTL_MS\<close> = 1000, the literal pieces of the three regexes, the error
    messages.
  \<^item> \<open>Patterns\<close>: the regexes as matchers (\<open>digits_label_at\<close>, proved to accept
    exactly the regex's language), the \<open>captures_iter\<close> loop with its \<open>break\<close>
    (\<open>find_route\<close>, terminating because every call is on a shorter suffix) and the
    leftmost minutes match (\<open>find_min\<close>). \<open>find_route\<close> is proved to refine
    \<open>after_first\<close>, ``the text after the first occurrence of the route's label''.
  \<^item> \<open>ParseInt\<close>: \<open>str::parse::<i32>\<close> as the standard library computes it
    (sign, then checked multiply-add per digit); equivalent on digit strings to
    the decimal value with one range test.
  \<^item> \<open>Extractor\<close>: \<open>eta_after_label\<close> (the \<open>truncated_html\<close> part) and
    \<open>extract_eta\<close>; theorems for each outcome (\<open>DUE\<close> gives 1, a minutes label
    its value or \<open>Cannot parse ETA.\<close>, neither gives \<open>No ETA found.\<close>, an absent
    or non-numeric route \<open>Route R not found\<close>), independence of the text before
    the first label, and the range of returned values.
  \<^item> \<open>Cache\<close>: \<open>CacheItem\<close>, \<open>EtaCache\<close> and its operations; clock readings
    are arguments of type \<open>clock\<close> (\<open>None\<close> for a system clock before the Unix
    epoch, where \<open>duration_since(UNIX_EPOCH).unwrap()\<close> panics: \<open>read_clock\<close>).
    The complete methods are \<open>cache_item_at\<close>, \<open>eta_cache_set_at\<close> and
    \<open>is_valid_at\<close>; their bodies after a successful reading are
    \<open>cache_item_new\<close>, \<open>eta_cache_set\<close> and \<open>is_valid\<close>, which computes
    \<open>now - timestamp\<close> on \<open>u64\<close>; the datatype \<open>build\<close> selects the debug
    behaviour (panic on underflow) or the release one (wrap-around). Theorems: the validity window, the effect of a
    clock that goes back, and the refinement of \<open>set\<close> by an update of the map of
    fresh entries (\<open>fresh_view\<close>).
  \<^item> \<open>Globals\<close>: the process state \<open>app_state\<close> (the cache mutex, the verdict, and
    the log \<open>net_log\<close> of requested URLs, which is how ``no request is made'' is
    stated) and the transport, a function from URL to response or error.
  \<^item> \<open>Robots\<close>: \<open>check_robots_txt\<close> and the loop \<open>robots_gate\<close> (terminating:
    it recurses once, from no verdict to a recorded one). Theorems: when the first
    call permits, memoisation of the verdict, at most one robots request per
    process, and the permanence of a transport failure.
  \<^item> \<open>Orchestrator\<close>: the command as one uninterrupted call. Its blocks
    between awaits are definitions of their own (\<open>cache_lookup\<close>, lines
    180--203; \<open>eta_of_response\<close>, 134--171; \<open>cache_store\<close>, 207--214),
    composed into \<open>fetch_eta_inner\<close>, \<open>fetch_eta_miss\<close> and \<open>fetch_eta\<close>;
    \<open>outcome\<close> is a returned \<open>Result\<close> or a panic. \<open>reachable\<close> is the
    inductive closure of the initial state under calls; \<open>state_inv\<close> (the
    lifetime stays 1000 ms) holds in every reachable state. A panic inside a
    critical section (the debug-build underflow, or a clock before the epoch in
    either build) poisons the cache mutex. Theorems: a repeated query within the
    lifetime is served from the cache without a request (also for a colliding key),
    after the lifetime it is fetched again, errors are not cached, a denial is
    returned without a request, the requests of the first query, and the two
    poisonings.
  \<^item> \<open>Concurrency\<close>: concurrent commands. A task is one invocation with the
    await it is suspended at (\<open>task_pc\<close>); \<open>task_step\<close> runs the whole code
    from one await to the next, reusing the blocks of \<open>Orchestrator\<close> and the
    head of the robots loop (\<open>robots_loop_head\<close>); \<open>sys_step\<close> spawns a task
    or steps any one, with responses and clock readings chosen freely. Theorems:
    concurrent stores to one key are last-write-wins, the race in which a later
    robots response overwrites a permission another command has acted on, and
    every task finishes within three own steps under any interleaving (a ranking
    function). A task run alone (\<open>solo\<close>, three steps of fuel, enough because
    the robots loop goes round at most twice within one step) computes the
    sequential \<open>fetch_eta\<close>: the two models agree.

  \<^item> \<open>Url\<close>: the request URL of \<open>eta_url!\<close> read back as a query string
    (\<open>query_param\<close>, a model of the server's reading, not code of the
    repository): a round trip of route and stop for identifiers without \<open>&\<close>,
    and the effect of an unescaped \<open>&\<close>.

  \<^bold>\<open>Modelling choices.\<close> Strings are byte strings (the patterns are ASCII, so
  matches agree with the \<open>regex\<close> crate on UTF-8 text). ETAs are \<open>int\<close>,
  bounded by theorem to the range of minutes the extractor can return. Time
  values are \<open>64 word\<close>, as \<open>as_millis() as u64\<close> produces them; each read
  of the clock is an argument, \<open>None\<close> before the epoch. The transport is a function from URL to a response or an error
  (the same URL always answers the same in the sequential model; each await may
  answer differently in the concurrent one). Every request is appended to
  \<open>net_log\<close>, which is how ``no request is made'' is stated.
  \<open>response.text()\<close> is part of the response. The \<open>println!\<close> and
  \<open>eprintln!\<close> calls are taken to succeed: they panic only when writing to the
  process's standard output fails (a closed descriptor is ignored by the standard
  library), an environment fault that would make a command panic at its first
  print, line 176, before any lock is taken; with that assumption nothing panics
  while \<open>ROBOTS_CHECK_DONE\<close> is locked, so that mutex cannot be poisoned and is
  left out. The theorems are therefore statements about runs in which printing
  succeeds; none of them claims that the command never panics.

  \<^bold>\<open>Not modelled.\<close> The Tauri shell \<open>run\<close> (plugin and handler
  registration), the output of the \<open>println!\<close>/\<open>eprintln!\<close> logging (see
  above), and the HTTP library, which is a parameter. The mutual exclusion of the
  locks is not represented by a holder: every critical section lies inside one
  step, so no lock is held between steps and none can block, by the construction
  of \<open>task_step\<close> from the source, where each guard is dropped before the next
  await.
\<close>

end
